theory Spec2Isabelle
  imports Main "HOL-Library.Multiset"
begin

section \<open>Time\<close>

text \<open>
  A JavaScript \<^verbatim>\<open>Date\<close> is a number of milliseconds since the epoch, and
  \<^verbatim>\<open>toISOString\<close> renders that number one-to-one, so a timestamp is an integer here,
  both for the \<^verbatim>\<open>Date\<close> and for its ISO string. Every function that reads the clock
  (\<^verbatim>\<open>new Date()\<close>, \<^verbatim>\<open>Date.now()\<close>) takes the reading as an argument.
  \<^verbatim>\<open>d.setDate(d.getDate() + k)\<close> moves a date by \<open>k\<close> calendar days; in a time zone
  with a fixed offset that is \<open>k\<close> times 86400000 ms.
\<close>

type_synonym timestamp = int

definition msPerDay :: int where
  "msPerDay = 86400000"

definition addDays :: "timestamp \<Rightarrow> int \<Rightarrow> timestamp" where
  "addDays d k = d + k * msPerDay"

section \<open>localStorage\<close>

text \<open>
  What \<^verbatim>\<open>JSON.parse(localStorage.getItem(key))\<close> finds under a key: nothing
  (\<^verbatim>\<open>getItem\<close> returns null), a text on which the read or the parse throws, or a value.
  \<^verbatim>\<open>setItem\<close> throws when the store is not writable (quota, disabled storage).
\<close>

datatype 'a slot = Absent | Corrupt | Present 'a

datatype error = StorageError | TypeError | ApiError

text \<open>
  A todo object. Properties that may be missing are options; ids are the non-negative
  integers the remote source and \<^verbatim>\<open>Date.now()\<close> produce.
\<close>

record todo =
  todo_id :: nat
  title :: "string option"
  completed :: bool
  userId :: "nat option"
  createdAt :: "timestamp option"
  fromApi :: "bool option"
  isLocal :: "bool option"
  savedAt :: "timestamp option"
  updatedAt :: "timestamp option"

record storage =
  todo_app_local_todos :: "todo list slot"
  todo_app_creation_dates :: "(nat \<rightharpoonup> timestamp) slot"
  todo_creation_dates :: "(nat \<rightharpoonup> timestamp) slot"
  writable :: bool

section \<open>dateUtils: simulated creation dates\<close>

text \<open>\<^verbatim>\<open>generateCreationDate(todoId)\<close>: thirty days before now, plus \<open>todoId % 30\<close> days.\<close>

definition generateCreationDate :: "timestamp \<Rightarrow> nat \<Rightarrow> timestamp" where
  "generateCreationDate now todoId =
     (let baseDate = addDays now (- 30);
          daysToAdd = int (todoId mod 30)
      in addDays baseDate daysToAdd)"

text \<open>
  \<^verbatim>\<open>saveCreationDate(todoId, date)\<close>: read the map, set the entry, write it back; any
  exception is caught and logged.
\<close>

definition saveCreationDate_body :: "nat \<Rightarrow> timestamp \<Rightarrow> storage \<Rightarrow> error + storage" where
  "saveCreationDate_body todoId date ls =
     (case todo_creation_dates ls of
        Corrupt \<Rightarrow> Inl StorageError
      | Absent \<Rightarrow>
          (if writable ls
           then Inr (ls\<lparr>todo_creation_dates := Present (Map.empty(todoId \<mapsto> date))\<rparr>)
           else Inl StorageError)
      | Present dates \<Rightarrow>
          (if writable ls
           then Inr (ls\<lparr>todo_creation_dates := Present (dates(todoId \<mapsto> date))\<rparr>)
           else Inl StorageError))"

definition saveCreationDate :: "nat \<Rightarrow> timestamp \<Rightarrow> storage \<Rightarrow> storage" where
  "saveCreationDate todoId date ls =
     (case saveCreationDate_body todoId date ls of Inl e \<Rightarrow> ls | Inr ls' \<Rightarrow> ls')"

text \<open>
  \<^verbatim>\<open>getCreationDate(todoId)\<close>: the stored date when there is one, else a generated date
  that is saved; when reading throws, a generated date that is not saved.
\<close>

definition getCreationDate :: "timestamp \<Rightarrow> nat \<Rightarrow> storage \<Rightarrow> timestamp \<times> storage" where
  "getCreationDate now todoId ls =
     (case todo_creation_dates ls of
        Corrupt \<Rightarrow> (generateCreationDate now todoId, ls)
      | Absent \<Rightarrow>
          (let newDate = generateCreationDate now todoId
           in (newDate, saveCreationDate todoId newDate ls))
      | Present dates \<Rightarrow>
          (case dates todoId of
             Some d \<Rightarrow> (d, ls)
           | None \<Rightarrow>
               (let newDate = generateCreationDate now todoId
                in (newDate, saveCreationDate todoId newDate ls))))"

section \<open>TodoService: creation dates\<close>

text \<open>
  The service object: the in-memory map \<^verbatim>\<open>this.creationDates\<close> and the browser's
  localStorage it reads and writes.
\<close>

record service =
  creationDates :: "nat \<rightharpoonup> timestamp"
  localStorage :: storage

text \<open>\<^verbatim>\<open>_loadCreationDates()\<close>: the stored map, or the empty map when there is none or reading throws.\<close>

definition loadCreationDates :: "storage \<Rightarrow> (nat \<rightharpoonup> timestamp)" where
  "loadCreationDates ls =
     (case todo_app_creation_dates ls of
        Present dates \<Rightarrow> dates
      | Absent \<Rightarrow> Map.empty
      | Corrupt \<Rightarrow> Map.empty)"

text \<open>\<^verbatim>\<open>_saveCreationDates()\<close>: write the in-memory map; a failing write is caught and logged.\<close>

definition saveCreationDates :: "service \<Rightarrow> service" where
  "saveCreationDates s =
     (if writable (localStorage s)
      then s\<lparr>localStorage := (localStorage s)\<lparr>todo_app_creation_dates := Present (creationDates s)\<rparr>\<rparr>
      else s)"

text \<open>The constructor, as far as the state goes.\<close>

definition newTodoService :: "storage \<Rightarrow> service" where
  "newTodoService ls = \<lparr>creationDates = loadCreationDates ls, localStorage = ls\<rparr>"

text \<open>
  \<^verbatim>\<open>_getOrCreateTodoDate(todoId)\<close>: the cached date when there is one; else now minus
  \<open>todoId % 30\<close> days, cached and saved.
\<close>

definition getOrCreateTodoDate :: "timestamp \<Rightarrow> nat \<Rightarrow> service \<Rightarrow> timestamp \<times> service" where
  "getOrCreateTodoDate now todoId s =
     (case creationDates s todoId of
        Some d \<Rightarrow> (d, s)
      | None \<Rightarrow>
          (let daysAgo = int (todoId mod 30);
               creationDate = addDays now (- daysAgo);
               s1 = s\<lparr>creationDates := (creationDates s)(todoId \<mapsto> creationDate)\<rparr>;
               s2 = saveCreationDates s1
           in (creationDate, s2)))"

section \<open>TodoService: the local store\<close>

text \<open>
  \<^verbatim>\<open>{...a, ...b}\<close> for the objects \<^verbatim>\<open>_saveLocalTodo\<close> receives: at both call
  sites \<open>b\<close> has \<^verbatim>\<open>id\<close>, \<^verbatim>\<open>title\<close>, \<^verbatim>\<open>completed\<close>, \<^verbatim>\<open>userId\<close> and
  \<^verbatim>\<open>createdAt\<close> as own properties, which override those of \<open>a\<close>; the other
  properties override when \<open>b\<close> has them.
\<close>

definition override :: "'a option \<Rightarrow> 'a option \<Rightarrow> 'a option" where
  "override a b = (case b of None \<Rightarrow> a | Some v \<Rightarrow> Some v)"

definition spread :: "todo \<Rightarrow> todo \<Rightarrow> todo" where
  "spread a b =
     \<lparr>todo_id = todo_id b, title = title b, completed = completed b, userId = userId b,
      createdAt = createdAt b,
      fromApi = override (fromApi a) (fromApi b),
      isLocal = override (isLocal a) (isLocal b),
      savedAt = override (savedAt a) (savedAt b),
      updatedAt = override (updatedAt a) (updatedAt b)\<rparr>"

text \<open>\<^verbatim>\<open>localTodos.findIndex(t => t.id === id)\<close>: the first position, or \<open>None\<close> for -1.\<close>

fun findIndex :: "('a \<Rightarrow> bool) \<Rightarrow> 'a list \<Rightarrow> nat option" where
  "findIndex P [] = None"
| "findIndex P (x # xs) =
     (if P x then Some 0 else (case findIndex P xs of None \<Rightarrow> None | Some i \<Rightarrow> Some (Suc i)))"

text \<open>
  The body of the try block of \<^verbatim>\<open>_saveLocalTodo(todo)\<close>. A todo whose id is falsy (0) is
  not saved. \<open>now\<close> is the clock reading of the \<^verbatim>\<open>savedAt\<close> or \<^verbatim>\<open>updatedAt\<close> stamp.
\<close>

definition saveLocalTodo_body :: "timestamp \<Rightarrow> todo \<Rightarrow> storage \<Rightarrow> error + storage" where
  "saveLocalTodo_body now todo ls =
     (if todo_id todo = 0 then Inr ls
      else
        (case todo_app_local_todos ls of
           Corrupt \<Rightarrow> Inl StorageError
         | stored \<Rightarrow>
             (let localTodos = (case stored of Present ts \<Rightarrow> ts | _ \<Rightarrow> []);
                  existingIndex = findIndex (\<lambda>t. todo_id t = todo_id todo) localTodos;
                  localTodos' =
                    (case existingIndex of
                       Some i \<Rightarrow>
                         localTodos[i := (spread (localTodos ! i) todo)\<lparr>updatedAt := Some now\<rparr>]
                     | None \<Rightarrow> localTodos @ [todo\<lparr>savedAt := Some now\<rparr>])
              in if writable ls
                 then Inr (ls\<lparr>todo_app_local_todos := Present localTodos'\<rparr>)
                 else Inl StorageError)))"

text \<open>\<^verbatim>\<open>_saveLocalTodo(todo)\<close>: the body, with its catch that logs and returns.\<close>

definition saveLocalTodo :: "timestamp \<Rightarrow> todo \<Rightarrow> service \<Rightarrow> service" where
  "saveLocalTodo now todo s =
     (case saveLocalTodo_body now todo (localStorage s) of
        Inl e \<Rightarrow> s
      | Inr ls' \<Rightarrow> s\<lparr>localStorage := ls'\<rparr>)"

text \<open>
  The date the default sort of \<^verbatim>\<open>_getLocalTodos\<close> compares:
  \<^verbatim>\<open>new Date(a.createdAt || a.savedAt || 0)\<close>.
\<close>

definition sortDate :: "todo \<Rightarrow> timestamp" where
  "sortDate a =
     (case createdAt a of
        Some d \<Rightarrow> d
      | None \<Rightarrow> (case savedAt a of Some d \<Rightarrow> d | None \<Rightarrow> 0))"

text \<open>
  \<^verbatim>\<open>_getLocalTodos()\<close> as \<^verbatim>\<open>fetchTodos\<close> calls it, with no options: the stored todos
  sorted by \<^verbatim>\<open>bDate - aDate\<close>, newest first. \<^verbatim>\<open>Array.prototype.sort\<close> is stable, and so
  is \<^const>\<open>sort_key\<close>. The body throws on an unreadable store; the catch returns the empty
  list.
\<close>

definition getLocalTodos_body :: "storage \<Rightarrow> error + todo list" where
  "getLocalTodos_body ls =
     (case todo_app_local_todos ls of
        Corrupt \<Rightarrow> Inl StorageError
      | Absent \<Rightarrow> Inr []
      | Present ts \<Rightarrow> Inr (sort_key (\<lambda>a. - sortDate a) ts))"

definition getLocalTodos :: "service \<Rightarrow> todo list" where
  "getLocalTodos s =
     (case getLocalTodos_body (localStorage s) of Inl e \<Rightarrow> [] | Inr ts \<Rightarrow> ts)"

section \<open>TodoService: the remote response\<close>

text \<open>The configuration values the service uses.\<close>

definition config_itemsPerPage :: nat where
  "config_itemsPerPage = 10"

definition config_defaultUserId :: nat where
  "config_defaultUserId = 1"

text \<open>An item as the remote source sends it: the text is under \<^verbatim>\<open>todo\<close> or \<^verbatim>\<open>title\<close>.\<close>

record api_item =
  item_id :: nat
  item_todo :: "string option"
  item_title :: "string option"
  item_completed :: "bool option"
  item_userId :: "nat option"

text \<open>
  What \<^verbatim>\<open>apiService.get\<close> resolves to: a bare array of items, an object with optional
  \<^verbatim>\<open>todos\<close>, \<^verbatim>\<open>total\<close>, \<^verbatim>\<open>limit\<close> and \<^verbatim>\<open>skip\<close> (a text body has none of them), or a
  body on which the transformation throws. \<open>Malformed\<close> carries the items that are
  transformed before the exception: none when the body is null or \<^verbatim>\<open>todos\<close> is no array,
  and the items before the first null item or item without an id otherwise (on a null item
  \<^verbatim>\<open>todo.id\<close> throws; without an id the simulated date is invalid and
  \<^verbatim>\<open>toISOString\<close> throws before anything is cached for that item).
\<close>

datatype response =
    Items "api_item list"
  | Paged "api_item list option" "nat option" "nat option" "nat option"
  | Malformed "api_item list"

record pagination_info =
  total :: nat
  limit :: nat
  skip :: nat

record todos_result =
  todos :: "todo list"
  pagination :: pagination_info

text \<open>JavaScript's \<^verbatim>\<open>a || b\<close> on an optional text and on an optional number.\<close>

definition or_text :: "string option \<Rightarrow> string option \<Rightarrow> string option" where
  "or_text a b = (case a of Some (c # cs) \<Rightarrow> Some (c # cs) | _ \<Rightarrow> b)"

definition or_number :: "nat option \<Rightarrow> nat \<Rightarrow> nat" where
  "or_number a b = (case a of Some (Suc n) \<Rightarrow> Suc n | _ \<Rightarrow> b)"

text \<open>\<^verbatim>\<open>_transformTodoItem(todo)\<close>: the normalized item with its creation date.\<close>

definition transformTodoItem :: "timestamp \<Rightarrow> api_item \<Rightarrow> service \<Rightarrow> todo \<times> service" where
  "transformTodoItem now item s =
     (let (date, s') = getOrCreateTodoDate now (item_id item) s
      in (\<lparr>todo_id = item_id item,
           title = or_text (item_todo item) (item_title item),
           completed = (case item_completed item of Some c \<Rightarrow> c | None \<Rightarrow> False),
           userId = item_userId item,
           createdAt = Some date,
           fromApi = None, isLocal = None, savedAt = None, updatedAt = None\<rparr>, s'))"

text \<open>\<^verbatim>\<open>todos.map(todo => this._transformTodoItem(todo))\<close>, left to right.\<close>

fun transformAll :: "timestamp \<Rightarrow> api_item list \<Rightarrow> service \<Rightarrow> todo list \<times> service" where
  "transformAll now [] s = ([], s)"
| "transformAll now (item # items) s =
     (let (t, s1) = transformTodoItem now item s;
          (ts, s2) = transformAll now items s1
      in (t # ts, s2))"

text \<open>
  \<^verbatim>\<open>_transformTodosResponse(response)\<close>. The exception of a malformed body, a
  \<^verbatim>\<open>TypeError\<close> or a \<^verbatim>\<open>RangeError\<close>, is shown as \<open>TypeError\<close>; what was cached for
  the items before it stays.
\<close>

definition transformTodosResponse ::
  "timestamp \<Rightarrow> response \<Rightarrow> service \<Rightarrow> (error + todos_result) \<times> service" where
  "transformTodosResponse now response s =
     (case response of
        Malformed items \<Rightarrow>
          (let (ts, s') = transformAll now items s
           in (Inl TypeError, s'))
      | Items items \<Rightarrow>
          (let (ts, s') = transformAll now items s
           in (Inr \<lparr>todos = ts,
                    pagination = \<lparr>total = length items, limit = length items, skip = 0\<rparr>\<rparr>, s'))
      | Paged todos_opt total_opt limit_opt skip_opt \<Rightarrow>
          (let items = (case todos_opt of Some its \<Rightarrow> its | None \<Rightarrow> []);
               (ts, s') = transformAll now items s
           in (Inr \<lparr>todos = ts,
                    pagination = \<lparr>total = or_number total_opt (length items),
                                  limit = or_number limit_opt config_itemsPerPage,
                                  skip = or_number skip_opt 0\<rparr>\<rparr>, s')))"

section \<open>TodoService: fetchTodos and addTodo\<close>

text \<open>
  The limit and the skip that \<^verbatim>\<open>fetchTodos\<close> sends: \<^verbatim>\<open>options.limit\<close> or the configured
  page size, and \<^verbatim>\<open>(page - 1) * limit\<close> with \<^verbatim>\<open>options.page || 1\<close>.
\<close>

definition requestLimit :: "nat option \<Rightarrow> nat" where
  "requestLimit limit_opt = or_number limit_opt config_itemsPerPage"

definition requestSkip :: "nat option \<Rightarrow> nat option \<Rightarrow> nat" where
  "requestSkip page_opt limit_opt =
     (let page = or_number page_opt 1 in (page - 1) * requestLimit limit_opt)"

text \<open>
  \<^verbatim>\<open>uniqueLocalTodos\<close>: the local todos whose id no API todo has,
  \<^verbatim>\<open>localTodos.filter(localTodo => !apiTodos.some(apiTodo => apiTodo.id === localTodo.id))\<close>.
\<close>

definition uniqueLocalTodos :: "todo list \<Rightarrow> todo list \<Rightarrow> todo list" where
  "uniqueLocalTodos apiTodos localTodos =
     filter (\<lambda>localTodo. \<not> list_ex (\<lambda>apiTodo. todo_id apiTodo = todo_id localTodo) apiTodos)
            localTodos"

text \<open>
  The inner try block of \<^verbatim>\<open>fetchTodos\<close>. \<open>apiGet limit skip\<close> is what
  \<^verbatim>\<open>await this.apiService.get(...)\<close> gives: \<open>Inl\<close> when the promise rejects (network
  error, timeout, HTTP error), \<open>Inr\<close> the parsed body otherwise. The clock reading \<open>now\<close>
  serves the date simulation and the \<^verbatim>\<open>savedAt\<close> stamps of this synchronous section.
\<close>

definition fetchTodos_remote ::
  "timestamp \<Rightarrow> (nat \<Rightarrow> nat \<Rightarrow> error + response) \<Rightarrow> nat \<Rightarrow> nat \<Rightarrow> todo list \<Rightarrow> service
     \<Rightarrow> (error + todos_result) \<times> service" where
  "fetchTodos_remote now apiGet lim skp localTodos s =
     (case apiGet lim skp of
        Inl e \<Rightarrow> (Inl e, s)
      | Inr response \<Rightarrow>
          (case transformTodosResponse now response s of
             (Inl e, s1) \<Rightarrow> (Inl e, s1)
           | (Inr transformedData, s1) \<Rightarrow>
               (let s2 = fold (\<lambda>todo st.
                                 if \<not> list_ex (\<lambda>lt. todo_id lt = todo_id todo) localTodos
                                 then saveLocalTodo now (todo\<lparr>fromApi := Some True\<rparr>) st
                                 else st)
                              (todos transformedData) s1;
                    unique = uniqueLocalTodos (todos transformedData) localTodos
                in if length unique > 0
                   then (Inr \<lparr>todos = unique @ todos transformedData,
                              pagination = (pagination transformedData)
                                \<lparr>total := total (pagination transformedData) + length unique\<rparr>\<rparr>,
                         s2)
                   else (Inr transformedData, s2))))"

text \<open>
  \<^verbatim>\<open>fetchTodos(options)\<close>: the local todos are read first; an exception of the inner block
  is caught and the local todos are returned. The outer catch rethrows, but the only
  statement it guards outside the inner block is \<^verbatim>\<open>_getLocalTodos()\<close>, which does not throw.
  \<open>Inl\<close> stands for a rejected promise.
\<close>

definition fetchTodos ::
  "timestamp \<Rightarrow> (nat \<Rightarrow> nat \<Rightarrow> error + response) \<Rightarrow> nat option \<Rightarrow> nat option \<Rightarrow> service
     \<Rightarrow> (error + todos_result) \<times> service" where
  "fetchTodos now apiGet page_opt limit_opt s =
     (let lim = requestLimit limit_opt;
          skp = requestSkip page_opt limit_opt;
          localTodos = getLocalTodos s
      in case fetchTodos_remote now apiGet lim skp localTodos s of
           (Inr transformedData, s') \<Rightarrow> (Inr transformedData, s')
         | (Inl apiError, s') \<Rightarrow>
             (Inr \<lparr>todos = localTodos,
                   pagination = \<lparr>total = length localTodos, limit = lim, skip = 0\<rparr>\<rparr>, s'))"

text \<open>The argument of \<^verbatim>\<open>addTodo\<close> and the body it posts.\<close>

record todo_data =
  data_title :: "string option"
  data_todo :: "string option"
  data_completed :: "bool option"
  data_userId :: "nat option"

record api_data =
  api_todo :: "string option"
  api_completed :: bool
  api_userId :: nat

text \<open>The object \<^verbatim>\<open>apiData\<close> that \<^verbatim>\<open>addTodo\<close> builds from its argument.\<close>

definition apiDataOf :: "todo_data \<Rightarrow> api_data" where
  "apiDataOf todoData =
     \<lparr>api_todo = or_text (data_title todoData) (data_todo todoData),
      api_completed = (case data_completed todoData of Some c \<Rightarrow> c | None \<Rightarrow> False),
      api_userId = or_number (data_userId todoData) config_defaultUserId\<rparr>"

text \<open>
  The object \<^verbatim>\<open>fallbackTodo\<close> of the catch branch of \<^verbatim>\<open>addTodo\<close>: its id is the
  reading of \<^verbatim>\<open>Date.now()\<close>, its creation date that of \<^verbatim>\<open>new Date()\<close>.
\<close>

definition fallbackTodo :: "nat \<Rightarrow> timestamp \<Rightarrow> api_data \<Rightarrow> todo" where
  "fallbackTodo dateNow now apiData =
     \<lparr>todo_id = dateNow,
      title = api_todo apiData,
      completed = api_completed apiData,
      userId = Some (api_userId apiData),
      createdAt = Some now,
      fromApi = None, isLocal = Some True, savedAt = None, updatedAt = None\<rparr>"

text \<open>
  \<^verbatim>\<open>addTodo(todoData)\<close>. \<open>apiPost\<close> is the outcome of the POST: \<open>Inr\<close> the created
  item, \<open>Inl\<close> when the promise rejects or the body is one on which the transformation
  throws (both land in the same catch).
  \<open>dateNow\<close> is the reading of \<^verbatim>\<open>Date.now()\<close>, \<open>now\<close> that of \<^verbatim>\<open>new Date()\<close> in
  \<^verbatim>\<open>addTodo\<close> or in the date simulation, \<open>saveNow\<close> that of \<^verbatim>\<open>new Date()\<close> in
  \<^verbatim>\<open>_saveLocalTodo\<close>.
\<close>

definition addTodo ::
  "nat \<Rightarrow> timestamp \<Rightarrow> timestamp \<Rightarrow> (api_data \<Rightarrow> error + api_item) \<Rightarrow> todo_data \<Rightarrow> service
     \<Rightarrow> (error + todo) \<times> service" where
  "addTodo dateNow now saveNow apiPost todoData s =
     (let apiData = apiDataOf todoData
      in case apiPost apiData of
           Inr response \<Rightarrow>
             (let (transformedTodo, s1) = transformTodoItem now response s;
                  s2 = saveLocalTodo saveNow (transformedTodo\<lparr>fromApi := Some True\<rparr>) s1
              in (Inr transformedTodo, s2))
         | Inl apiError \<Rightarrow>
             (let fallback = fallbackTodo dateNow now apiData;
                  s1 = saveLocalTodo saveNow fallback s
              in (Inr fallback, s1)))"

section \<open>Pagination\<close>

text \<open>
  The component's fields, and what it does to the outside: it renders its controls and it
  calls \<^verbatim>\<open>onPageChange\<close>. Calls append to a log. The pages are integers as long as
  they are numbers; where \<^verbatim>\<open>NaN\<close> can come in, they are JavaScript numbers (below).
\<close>

record 'n pagination =
  itemsPerPage :: int
  totalItems :: int
  currentPage :: 'n
  previousPage :: 'n

type_synonym pagination_state = "int pagination"

datatype 'n effect = Render | PageChange 'n

text \<open>\<^verbatim>\<open>Math.ceil(a / b)\<close> on integers, \<open>b\<close> not zero.\<close>

definition ceilDiv :: "int \<Rightarrow> int \<Rightarrow> int" where
  "ceilDiv a b = - ((- a) div b)"

text \<open>The constructor: \<^verbatim>\<open>options.itemsPerPage || 10\<close>, \<^verbatim>\<open>options.totalItems || 0\<close>, page 1.\<close>

definition or_int :: "int option \<Rightarrow> int \<Rightarrow> int" where
  "or_int a b = (case a of Some n \<Rightarrow> (if n = 0 then b else n) | None \<Rightarrow> b)"

definition newPagination ::
  "int option \<Rightarrow> int option \<Rightarrow> pagination_state \<times> int effect list" where
  "newPagination itemsPerPage_opt totalItems_opt =
     (\<lparr>itemsPerPage = or_int itemsPerPage_opt 10,
       totalItems = or_int totalItems_opt 0,
       currentPage = 1,
       previousPage = 1\<rparr>, [Render])"

definition totalPages :: "'n pagination \<Rightarrow> int" where
  "totalPages p = max 1 (ceilDiv (totalItems p) (itemsPerPage p))"

text \<open>\<^verbatim>\<open>updateTotalItems(totalItems, resetPage)\<close> on a component whose current page is a number.\<close>

definition updateTotalItems ::
  "int \<Rightarrow> bool \<Rightarrow> pagination_state \<Rightarrow> pagination_state \<times> int effect list" where
  "updateTotalItems newTotal resetPage p =
     (let previousTotalPages = totalPages p;
          p1 = p\<lparr>totalItems := newTotal\<rparr>;
          wasOnPage = currentPage p1;
          p2 = (if currentPage p1 > totalPages p1
                then p1\<lparr>currentPage := max 1 (totalPages p1)\<rparr>
                else p1);
          p3 = (if resetPage
                then p2\<lparr>previousPage := currentPage p2, currentPage := 1\<rparr>
                else p2);
          pageChanged = (resetPage \<or> currentPage p3 \<noteq> wasOnPage);
          totalPagesChanged = (previousTotalPages \<noteq> totalPages p3)
      in (p3, Render # (if pageChanged \<or> totalPagesChanged then [PageChange (currentPage p3)] else [])))"

text \<open>
  The page links. \<^verbatim>\<open>render\<close> emits nothing when there is one page; else the previous
  button, the first page and an ellipsis when the window of five pages starts after them,
  the pages of the window, an ellipsis and the last page when the window ends before
  them, and the next button. Every one of these elements has the class \<^verbatim>\<open>page-link\<close>;
  the ellipsis is a span without \<^verbatim>\<open>data-page\<close>.
\<close>

datatype page_link = Prev | Next | Page int | Ellipsis

definition renderedLinks :: "pagination_state \<Rightarrow> page_link list" where
  "renderedLinks p =
     (if totalPages p \<le> 1 then []
      else
        (let maxVisiblePages = 5;
             startPage0 = max 1 (currentPage p - maxVisiblePages div 2);
             endPage = min (totalPages p) (startPage0 + maxVisiblePages - 1);
             startPage = (if endPage - startPage0 + 1 < maxVisiblePages
                          then max 1 (endPage - maxVisiblePages + 1)
                          else startPage0)
         in [Prev]
            @ (if startPage > 1
               then Page 1 # (if startPage > 2 then [Ellipsis] else [])
               else [])
            @ map Page [startPage..endPage]
            @ (if endPage < totalPages p
               then (if endPage < totalPages p - 1 then [Ellipsis] else []) @ [Page (totalPages p)]
               else [])
            @ [Next]))"

text \<open>
  A page as JavaScript has it: \<^verbatim>\<open>parseInt\<close> gives an integer or \<^verbatim>\<open>NaN\<close>. The
  comparisons \<^verbatim>\<open><\<close>, \<^verbatim>\<open>>\<close> and \<^verbatim>\<open>===\<close> are false whenever a side is \<^verbatim>\<open>NaN\<close>, and
  arithmetic on \<^verbatim>\<open>NaN\<close> gives \<^verbatim>\<open>NaN\<close>.
\<close>

datatype number = NaN | Num int

definition js_lt :: "number \<Rightarrow> number \<Rightarrow> bool" where
  "js_lt a b = (case a of Num x \<Rightarrow> (case b of Num y \<Rightarrow> x < y | NaN \<Rightarrow> False) | NaN \<Rightarrow> False)"

definition js_gt :: "number \<Rightarrow> number \<Rightarrow> bool" where
  "js_gt a b = (case a of Num x \<Rightarrow> (case b of Num y \<Rightarrow> x > y | NaN \<Rightarrow> False) | NaN \<Rightarrow> False)"

definition js_eq :: "number \<Rightarrow> number \<Rightarrow> bool" where
  "js_eq a b = (case a of Num x \<Rightarrow> (case b of Num y \<Rightarrow> x = y | NaN \<Rightarrow> False) | NaN \<Rightarrow> False)"

definition js_plus :: "number \<Rightarrow> int \<Rightarrow> number" where
  "js_plus a k = (case a of Num x \<Rightarrow> Num (x + k) | NaN \<Rightarrow> NaN)"

text \<open>A component whose pages are numbers, seen as one whose pages are JavaScript numbers.\<close>

definition lift :: "pagination_state \<Rightarrow> number pagination" where
  "lift p = \<lparr>itemsPerPage = itemsPerPage p, totalItems = totalItems p,
             currentPage = Num (currentPage p), previousPage = Num (previousPage p)\<rparr>"

definition liftResult ::
  "pagination_state \<times> int effect list \<Rightarrow> number pagination \<times> number effect list" where
  "liftResult r = (lift (fst r), map (map_effect Num) (snd r))"

text \<open>\<^verbatim>\<open>goToPage(pageNumber)\<close>.\<close>

definition goToPage ::
  "number \<Rightarrow> number pagination \<Rightarrow> number pagination \<times> number effect list" where
  "goToPage pageNumber p =
     (if js_lt pageNumber (Num 1) \<or> js_gt pageNumber (Num (totalPages p))
         \<or> js_eq pageNumber (currentPage p)
      then (p, [])
      else (p\<lparr>previousPage := currentPage p, currentPage := pageNumber\<rparr>,
            [Render, PageChange pageNumber]))"

text \<open>\<^verbatim>\<open>updateTotalItems(totalItems, resetPage)\<close> on a component whose page may be \<^verbatim>\<open>NaN\<close>.\<close>

definition updateTotalItemsN ::
  "int \<Rightarrow> bool \<Rightarrow> number pagination \<Rightarrow> number pagination \<times> number effect list" where
  "updateTotalItemsN newTotal resetPage p =
     (let previousTotalPages = totalPages p;
          p1 = p\<lparr>totalItems := newTotal\<rparr>;
          wasOnPage = currentPage p1;
          p2 = (if js_gt (currentPage p1) (Num (totalPages p1))
                then p1\<lparr>currentPage := Num (max 1 (totalPages p1))\<rparr>
                else p1);
          p3 = (if resetPage
                then p2\<lparr>previousPage := currentPage p2, currentPage := Num 1\<rparr>
                else p2);
          pageChanged = (resetPage \<or> \<not> js_eq (currentPage p3) wasOnPage);
          totalPagesChanged = (previousTotalPages \<noteq> totalPages p3)
      in (p3, Render # (if pageChanged \<or> totalPagesChanged then [PageChange (currentPage p3)] else [])))"

text \<open>\<^verbatim>\<open>reset()\<close>.\<close>

definition reset :: "number pagination \<Rightarrow> number pagination \<times> number effect list" where
  "reset p = (p\<lparr>currentPage := Num 1\<rparr>, [Render])"

text \<open>
  The click handler that \<^verbatim>\<open>setupEventListeners\<close> binds to every element of class
  \<^verbatim>\<open>page-link\<close>. \<^verbatim>\<open>data-page\<close> is prev, next or a page number; on the ellipsis
  \<^verbatim>\<open>getAttribute\<close> gives null, which is neither prev nor next, and
  \<^verbatim>\<open>parseInt(null, 10)\<close> is \<^verbatim>\<open>NaN\<close>.
\<close>

definition click ::
  "page_link \<Rightarrow> number pagination \<Rightarrow> number pagination \<times> number effect list" where
  "click link p =
     (case link of
        Prev \<Rightarrow> (if js_gt (currentPage p) (Num 1)
                 then goToPage (js_plus (currentPage p) (- 1)) p else (p, []))
      | Next \<Rightarrow> (if js_lt (currentPage p) (Num (totalPages p))
                 then goToPage (js_plus (currentPage p) 1) p else (p, []))
      | Page n \<Rightarrow> goToPage (Num n) p
      | Ellipsis \<Rightarrow> goToPage NaN p)"

text \<open>The operations of the component, and a run of them from a state.\<close>

datatype operation =
    GoToPage number
  | UpdateTotalItems int bool
  | Reset
  | Click page_link

fun perform ::
  "operation \<Rightarrow> number pagination \<Rightarrow> number pagination \<times> number effect list" where
  "perform (GoToPage n) p = goToPage n p"
| "perform (UpdateTotalItems n r) p = updateTotalItemsN n r p"
| "perform Reset p = reset p"
| "perform (Click l) p = click l p"

fun run ::
  "operation list \<Rightarrow> number pagination \<times> number effect list
     \<Rightarrow> number pagination \<times> number effect list" where
  "run [] pe = pe"
| "run (op # ops) (p, es) = (let (p', es') = perform op p in run ops (p', es @ es'))"

section \<open>validators\<close>

text \<open>
  A text is a list of characters with codes 0 to 255, each one code unit of the JavaScript
  string, so \<^const>\<open>length\<close> is \<^verbatim>\<open>.length\<close>. \<^verbatim>\<open>String.prototype.trim\<close> strips
  white space and line terminators; those with a code up to 255 are tab, line feed,
  vertical tab, form feed, carriage return, space and the no-break space U+00A0. White
  space with a higher code (U+FEFF, U+2028 and others) is outside these texts.
\<close>

definition isSpace :: "char \<Rightarrow> bool" where
  "isSpace c =
     (c \<in> set [CHR 0x09, CHR 0x0A, CHR 0x0B, CHR 0x0C, CHR 0x0D, CHR 0x20, CHR 0xA0])"

definition trim :: "string \<Rightarrow> string" where
  "trim v = rev (dropWhile isSpace (rev (dropWhile isSpace v)))"

record validation =
  isValid :: bool
  message :: string
  field :: "string option"

text \<open>The decimal text of a number in a template literal.\<close>

definition digit :: "nat \<Rightarrow> char" where
  "digit n = ''0123456789'' ! n"

fun decimal :: "nat \<Rightarrow> string" where
  "decimal n = (if n < 10 then [digit n] else decimal (n div 10) @ [digit (n mod 10)])"

declare decimal.simps [simp del]

definition validateRequired :: "string \<Rightarrow> validation" where
  "validateRequired v =
     (let trimmed = trim v;
          valid = (trimmed \<noteq> [])
      in \<lparr>isValid = valid,
          message = (if valid then [] else ''This field is required''),
          field = None\<rparr>)"

definition validateMinLength :: "string \<Rightarrow> nat \<Rightarrow> validation" where
  "validateMinLength v minLength =
     (let required = validateRequired v
      in if \<not> isValid required then required
         else
           (let valid = (length (trim v) \<ge> minLength)
            in \<lparr>isValid = valid,
                message = (if valid then []
                           else ''Must be at least '' @ decimal minLength @ '' characters''),
                field = None\<rparr>))"

definition validateMaxLength :: "string \<Rightarrow> nat \<Rightarrow> validation" where
  "validateMaxLength v maxLength =
     (let required = validateRequired v
      in if \<not> isValid required then required
         else
           (let valid = (length (trim v) \<le> maxLength)
            in \<lparr>isValid = valid,
                message = (if valid then []
                           else ''Must be no more than '' @ decimal maxLength @ '' characters''),
                field = None\<rparr>))"

definition validateTodoText :: "string \<Rightarrow> validation" where
  "validateTodoText v =
     (let required = validateRequired v
      in if \<not> isValid required then required
         else
           (let minLength = validateMinLength v 3
            in if \<not> isValid minLength then minLength
               else
                 (let maxLength = validateMaxLength v 100
                  in if \<not> isValid maxLength then maxLength
                     else \<lparr>isValid = True, message = [], field = None\<rparr>)))"

text \<open>
  The text of a date field: empty, a text that \<^verbatim>\<open>new Date\<close> turns into an invalid date,
  or a date \<^verbatim>\<open>yyyy-mm-dd\<close>, given by its day number, which \<^verbatim>\<open>new Date\<close> reads as
  midnight UTC of that day.
\<close>

datatype date_text = Blank | Unparsable | YMD int

definition newDate :: "date_text \<Rightarrow> timestamp option" where
  "newDate t = (case t of YMD d \<Rightarrow> Some (d * msPerDay) | _ \<Rightarrow> None)"

definition validateDate :: "date_text \<Rightarrow> validation" where
  "validateDate dateString =
     (if dateString = Blank then \<lparr>isValid = True, message = [], field = None\<rparr>
      else
        (let valid = (newDate dateString \<noteq> None)
         in \<lparr>isValid = valid,
             message = (if valid then [] else ''Please enter a valid date''),
             field = None\<rparr>))"

definition validateDateRange :: "date_text \<Rightarrow> date_text \<Rightarrow> validation" where
  "validateDateRange startDateString endDateString =
     (if startDateString = Blank \<and> endDateString = Blank
      then \<lparr>isValid = True, message = [], field = None\<rparr>
      else if startDateString \<noteq> Blank \<and> \<not> isValid (validateDate startDateString)
      then (validateDate startDateString)\<lparr>field := Some ''startDate''\<rparr>
      else if endDateString \<noteq> Blank \<and> \<not> isValid (validateDate endDateString)
      then (validateDate endDateString)\<lparr>field := Some ''endDate''\<rparr>
      else if (startDateString = Blank \<and> endDateString \<noteq> Blank)
            \<or> (startDateString \<noteq> Blank \<and> endDateString = Blank)
      then \<lparr>isValid = True, message = [], field = None\<rparr>
      else
        (case (newDate startDateString, newDate endDateString) of
           (Some startDate, Some endDate) \<Rightarrow>
             (if startDate > endDate
              then \<lparr>isValid = False, message = ''Start date must be before end date'',
                    field = Some ''dateRange''\<rparr>
              else \<lparr>isValid = True, message = [], field = None\<rparr>)
         | _ \<Rightarrow> \<lparr>isValid = True, message = [], field = None\<rparr>))"

section \<open>TodoForm\<close>

text \<open>
  \<^verbatim>\<open>_validateInput\<close> on the text of the input field, which is taken to exist, and
  \<^verbatim>\<open>_validateForm\<close>.
\<close>

definition validateInput :: "string \<Rightarrow> bool" where
  "validateInput inputValue = (let v = trim inputValue in length v > 0)"

definition validateForm :: "string \<Rightarrow> bool" where
  "validateForm inputValue = (if \<not> validateInput inputValue then False else True)"

text \<open>
  \<^verbatim>\<open>_handleSubmit\<close>: nothing is submitted when the form is not valid; else the data
  handed to \<^verbatim>\<open>onSubmit\<close>, which the application passes to \<^verbatim>\<open>addTodo\<close>.
\<close>

definition handleSubmit :: "string \<Rightarrow> bool \<Rightarrow> todo_data option" where
  "handleSubmit inputValue checked =
     (if \<not> validateForm inputValue then None
      else Some \<lparr>data_title = Some (trim inputValue), data_todo = None,
                 data_completed = Some checked, data_userId = None\<rparr>)"

text \<open>Submitting the form: the record that results, when one is created.\<close>

definition submitTodo ::
  "nat \<Rightarrow> timestamp \<Rightarrow> timestamp \<Rightarrow> (api_data \<Rightarrow> error + api_item) \<Rightarrow> string \<Rightarrow> bool \<Rightarrow> service
     \<Rightarrow> ((error + todo) \<times> service) option" where
  "submitTodo dateNow now saveNow apiPost inputValue checked s =
     (case handleSubmit inputValue checked of
        None \<Rightarrow> None
      | Some todoData \<Rightarrow> Some (addTodo dateNow now saveNow apiPost todoData s))"

section \<open>DateFilter\<close>

text \<open>
  \<^verbatim>\<open>setHours(0, 0, 0, 0)\<close> and \<^verbatim>\<open>setHours(23, 59, 59, 999)\<close> in a time zone \<open>tz\<close>
  milliseconds ahead of UTC.
\<close>

definition startOfDay :: "int \<Rightarrow> timestamp \<Rightarrow> timestamp" where
  "startOfDay tz d = ((d + tz) div msPerDay) * msPerDay - tz"

definition endOfDay :: "int \<Rightarrow> timestamp \<Rightarrow> timestamp" where
  "endOfDay tz d = startOfDay tz d + (msPerDay - 1)"

record date_filter =
  fromDate :: "timestamp option"
  toDate :: "timestamp option"

text \<open>
  What a run of \<^verbatim>\<open>validateAndFilter\<close> ends in: the elements are not found, an error is
  shown (the text of the alert), or \<^verbatim>\<open>onFilter\<close> is called.
\<close>

text \<open>The alert for a range whose start is after its end; \<open>CHR 0x22\<close> is the double quote.\<close>

definition rangeMessage :: string where
  "rangeMessage = ''Invalid date range: '' @ [CHR 0x22] @ ''From'' @ [CHR 0x22]
                    @ '' date must be before '' @ [CHR 0x22] @ ''To'' @ [CHR 0x22] @ '' date''"

datatype outcome =
    NotFound
  | Rejected string
  | OnFilter "timestamp option" "timestamp option"

fun isOnFilter :: "outcome \<Rightarrow> bool" where
  "isOnFilter (OnFilter a b) = True"
| "isOnFilter (Rejected m) = False"
| "isOnFilter NotFound = False"

definition validateAndFilter ::
  "int \<Rightarrow> timestamp \<Rightarrow> bool \<Rightarrow> date_text \<Rightarrow> date_text \<Rightarrow> date_filter \<Rightarrow> date_filter \<times> outcome" where
  "validateAndFilter tz now elementsFound fromDateStr toDateStr f =
     (if \<not> elementsFound then (f, NotFound)
      else if fromDateStr = Blank \<and> toDateStr = Blank
      then (f\<lparr>fromDate := None, toDate := None\<rparr>, OnFilter None None)
      else if fromDateStr \<noteq> Blank \<and> newDate fromDateStr = None
      then (f, Rejected ''Invalid date format'')
      else if toDateStr \<noteq> Blank \<and> newDate toDateStr = None
      then (f, Rejected ''Invalid date format'')
      else
        (let from = map_option (startOfDay tz) (newDate fromDateStr);
             to = map_option (endOfDay tz) (newDate toDateStr);
             today = endOfDay tz now
         in if (case (from, to) of (Some a, Some b) \<Rightarrow> a > b | _ \<Rightarrow> False)
            then (f, Rejected rangeMessage)
            else if (case from of Some a \<Rightarrow> a > today | None \<Rightarrow> False)
            then (f, Rejected ''Invalid date: Cannot filter by future dates'')
            else
              (let to' = (case to of Some b \<Rightarrow> (if b > today then Some today else Some b)
                                   | None \<Rightarrow> None)
               in (f\<lparr>fromDate := from, toDate := to'\<rparr>, OnFilter from to'))))"

section \<open>Fixtures\<close>

text \<open>A browser in which nothing is stored yet.\<close>

definition freshStorage :: storage where
  "freshStorage = \<lparr>todo_app_local_todos = Absent, todo_app_creation_dates = Absent,
                    todo_creation_dates = Absent, writable = True\<rparr>"

text \<open>Resolving the dates of a list of ids in turn, each call with its own clock reading.\<close>

fun resolveAll :: "(timestamp \<times> nat) list \<Rightarrow> service \<Rightarrow> service" where
  "resolveAll [] s = s"
| "resolveAll ((t, j) # calls) s = resolveAll calls (snd (getOrCreateTodoDate t j s))"

section \<open>Pagination: what is observed\<close>

text \<open>Whether a log holds a call of \<^verbatim>\<open>onPageChange\<close>, and the bounds of the current page.\<close>

fun isPageChange :: "'n effect \<Rightarrow> bool" where
  "isPageChange (PageChange n) = True"
| "isPageChange Render = False"

definition signalled :: "'n effect list \<Rightarrow> bool" where
  "signalled es = list_ex isPageChange es"

text \<open>\<^verbatim>\<open>1 <= currentPage && currentPage <= totalPages\<close>, which is false of \<^verbatim>\<open>NaN\<close>.\<close>

definition inBounds :: "number pagination \<Rightarrow> bool" where
  "inBounds p =
     (case currentPage p of Num c \<Rightarrow> 1 \<le> c \<and> c \<le> totalPages p | NaN \<Rightarrow> False)"

section \<open>The local store: what is observed\<close>

text \<open>The todos that can be read from the store: none when the key is missing or unreadable.\<close>

definition storedTodos :: "service \<Rightarrow> todo list" where
  "storedTodos s =
     (case todo_app_local_todos (localStorage s) of Present ts \<Rightarrow> ts | _ \<Rightarrow> [])"

text \<open>
  A stored todo with the given id, created on the day of that number, and a service whose
  store holds twelve of them, in the order of their ids.
\<close>

definition localTodo :: "nat \<Rightarrow> todo" where
  "localTodo n =
     \<lparr>todo_id = n, title = Some ''task'', completed = False, userId = Some 1,
      createdAt = Some (int n * msPerDay), fromApi = None, isLocal = Some True,
      savedAt = Some (int n * msPerDay), updatedAt = None\<rparr>"

definition twelveLocal :: service where
  "twelveLocal =
     \<lparr>creationDates = Map.empty,
      localStorage = freshStorage
        \<lparr>todo_app_local_todos :=
           Present (map localTodo [1, 2, 3, 4, 5, 6, 7, 8, 9, 10, 11, 12])\<rparr>\<rparr>"

text \<open>A remote source that cannot be reached.\<close>

definition unreachable :: "nat \<Rightarrow> nat \<Rightarrow> error + response" where
  "unreachable lim skp = Inl ApiError"

text \<open>
  A service whose store holds two todos, ids 1 and 5, and a remote source that answers
  every request with a page of two items, ids 1 and 2, out of 150.
\<close>

definition twoLocal :: service where
  "twoLocal =
     \<lparr>creationDates = Map.empty,
      localStorage = freshStorage
        \<lparr>todo_app_local_todos := Present [localTodo 1, localTodo 5]\<rparr>\<rparr>"

definition remoteItem :: "nat \<Rightarrow> api_item" where
  "remoteItem n =
     \<lparr>item_id = n, item_todo = Some ''remote'', item_title = None,
      item_completed = Some True, item_userId = Some 7\<rparr>"

definition remotePage :: "nat \<Rightarrow> nat \<Rightarrow> error + response" where
  "remotePage lim skp =
     Inr (Paged (Some [remoteItem 1, remoteItem 2]) (Some 150) (Some 10) None)"

text \<open>The normalized form of \<^const>\<open>remoteItem\<close> when its date is simulated at clock reading 0.\<close>

definition remoteTodo :: "nat \<Rightarrow> todo" where
  "remoteTodo n =
     \<lparr>todo_id = n, title = Some ''remote'', completed = True, userId = Some 7,
      createdAt = Some (- (int (n mod 30) * msPerDay)), fromApi = None, isLocal = None,
      savedAt = None, updatedAt = None\<rparr>"

text \<open>A POST that is rejected, and the data of a new todo.\<close>

definition rejecting :: "api_data \<Rightarrow> error + api_item" where
  "rejecting apiData = Inl ApiError"

definition milk :: todo_data where
  "milk = \<lparr>data_title = Some ''Buy milk'', data_todo = None,
           data_completed = Some False, data_userId = None\<rparr>"

text \<open>
  A remote source whose body makes the transformation throw after one item, id 2, and one
  whose body has a total and no list of todos.
\<close>

definition malformedPage :: "nat \<Rightarrow> nat \<Rightarrow> error + response" where
  "malformedPage lim skp = Inr (Malformed [remoteItem 2])"

definition totalOnly :: "nat \<Rightarrow> nat \<Rightarrow> error + response" where
  "totalOnly lim skp = Inr (Paged None (Some 150) (Some 10) None)"

section \<open>Properties of the date assigners\<close>

lemma generateCreationDate_formula:
  "generateCreationDate now todoId = now - 30 * msPerDay + int (todoId mod 30) * msPerDay"
  by (simp add: generateCreationDate_def addDays_def)

lemma creationDates_saveCreationDates [simp]:
  "creationDates (saveCreationDates s) = creationDates s"
  by (simp add: saveCreationDates_def)

lemma getOrCreateTodoDate_uncached:
  "creationDates s todoId = None \<Longrightarrow>
     fst (getOrCreateTodoDate now todoId s) = now - int (todoId mod 30) * msPerDay"
  by (simp add: getOrCreateTodoDate_def addDays_def Let_def)

lemma getOrCreateTodoDate_cached:
  "creationDates s todoId = Some d \<Longrightarrow> getOrCreateTodoDate now todoId s = (d, s)"
  by (simp add: getOrCreateTodoDate_def)

lemma creationDates_after_getOrCreateTodoDate:
  "creationDates (snd (getOrCreateTodoDate now todoId s)) =
     (case creationDates s todoId of
        Some d \<Rightarrow> creationDates s
      | None \<Rightarrow> (creationDates s)(todoId \<mapsto> now - int (todoId mod 30) * msPerDay))"
  by (simp add: getOrCreateTodoDate_def addDays_def Let_def split: option.splits)

lemma generateCreationDate_band_mono:
  "i div 30 = j div 30 \<Longrightarrow> i \<le> j \<Longrightarrow> generateCreationDate now i \<le> generateCreationDate now j"
proof -
  assume band: "i div 30 = j div 30" and le: "i \<le> j"
  have "i mod 30 \<le> j mod 30"
    using band le by (metis add_le_cancel_left mult_div_mod_eq)
  then show ?thesis
    by (simp add: generateCreationDate_formula msPerDay_def)
qed

lemma getOrCreateTodoDate_other:
  "j \<noteq> i \<Longrightarrow> creationDates (snd (getOrCreateTodoDate t j s)) i = creationDates s i"
  by (simp add: creationDates_after_getOrCreateTodoDate split: option.splits)

lemma creationDates_resolveAll:
  "i \<notin> snd ` set calls \<Longrightarrow> creationDates (resolveAll calls s) i = creationDates s i"
proof (induction calls arbitrary: s)
  case Nil
  then show ?case by simp
next
  case (Cons c calls)
  obtain t j where c: "c = (t, j)" by (cases c)
  from Cons.prems c have "j \<noteq> i" and rest: "i \<notin> snd ` set calls" by auto
  then have "creationDates (snd (getOrCreateTodoDate t j s)) i = creationDates s i"
    by (simp add: getOrCreateTodoDate_other)
  with Cons.IH [OF rest] c show ?case by simp
qed

lemma getOrCreateTodoDate_reads_own_entry:
  "creationDates s i = creationDates s' i \<Longrightarrow>
     fst (getOrCreateTodoDate now i s) = fst (getOrCreateTodoDate now i s')"
  by (simp add: getOrCreateTodoDate_def Let_def split: option.splits)

lemma getCreationDate_twice:
  assumes "todo_creation_dates ls \<noteq> Corrupt" and "writable ls"
  shows "fst (getCreationDate now2 i (snd (getCreationDate now1 i ls))) = fst (getCreationDate now1 i ls)"
  using assms
  by (cases "todo_creation_dates ls")
     (auto simp: getCreationDate_def saveCreationDate_def saveCreationDate_body_def Let_def
           split: option.splits)

lemma getCreationDate_unwritable_regenerates:
  "fst (getCreationDate now2 i (snd (getCreationDate now1 i (freshStorage\<lparr>writable := False\<rparr>))))
     = generateCreationDate now2 i"
  by (simp add: getCreationDate_def saveCreationDate_def saveCreationDate_body_def Let_def
        freshStorage_def)

lemma getOrCreateTodoDate_band_antimono:
  assumes "creationDates s i = None" and "creationDates s j = None"
      and "i div 30 = j div 30" and "i \<le> j"
  shows "fst (getOrCreateTodoDate now j s) \<le> fst (getOrCreateTodoDate now i s)"
proof -
  have "i mod 30 \<le> j mod 30"
    using assms(3,4) by (metis add_le_cancel_left mult_div_mod_eq)
  then show ?thesis
    using assms(1,2) by (simp add: getOrCreateTodoDate_def addDays_def Let_def msPerDay_def)
qed

text \<open>
  C4. \<^verbatim>\<open>_getOrCreateTodoDate\<close>, on ids 1 and 2 with nothing cached and the same clock
  reading, dates id 1 one day back and id 2 two days back: the lower id gets the newer
  date, against its own comment (lower ids are older). \<^verbatim>\<open>generateCreationDate\<close> of
  dateUtils, thirty days back plus \<open>id mod 30\<close> days, gives the lower id the older date.
\<close>

theorem getOrCreateTodoDate_lower_id_newer:
  "fst (getOrCreateTodoDate 1700000000000 1 (newTodoService freshStorage))
     = 1700000000000 - 1 * msPerDay
   \<and> fst (getOrCreateTodoDate 1700000000000 2 (newTodoService freshStorage))
     = 1700000000000 - 2 * msPerDay
   \<and> fst (getOrCreateTodoDate 1700000000000 2 (newTodoService freshStorage))
     < fst (getOrCreateTodoDate 1700000000000 1 (newTodoService freshStorage))
   \<and> generateCreationDate 1700000000000 1 < generateCreationDate 1700000000000 2"
  by (simp add: getOrCreateTodoDate_def newTodoService_def loadCreationDates_def freshStorage_def
        addDays_def Let_def generateCreationDate_def msPerDay_def)

text \<open>
  C5. A second call of \<^verbatim>\<open>_getOrCreateTodoDate\<close> for an id returns the value of the first
  call, whatever the clock reads then; and the value an id gets at a clock reading is the
  same whichever other ids were resolved before it.
\<close>

theorem getOrCreateTodoDate_idempotent:
  "fst (getOrCreateTodoDate now2 i (snd (getOrCreateTodoDate now1 i s)))
     = fst (getOrCreateTodoDate now1 i s)
   \<and> (i \<notin> snd ` set calls \<longrightarrow>
        fst (getOrCreateTodoDate now i (resolveAll calls s)) = fst (getOrCreateTodoDate now i s))"
proof
  show "fst (getOrCreateTodoDate now2 i (snd (getOrCreateTodoDate now1 i s)))
          = fst (getOrCreateTodoDate now1 i s)"
    by (cases "creationDates s i") (simp_all add: getOrCreateTodoDate_def Let_def)
next
  show "i \<notin> snd ` set calls \<longrightarrow>
          fst (getOrCreateTodoDate now i (resolveAll calls s)) = fst (getOrCreateTodoDate now i s)"
    using creationDates_resolveAll getOrCreateTodoDate_reads_own_entry by blast
qed

theorem getOrCreateTodoDate_idempotent_witness:
  "(7::nat) \<notin> snd ` set [(50::int, 3::nat), (60, 5)]
   \<and> fst (getOrCreateTodoDate 200 7 (snd (getOrCreateTodoDate 100 7 (newTodoService freshStorage))))
       = fst (getOrCreateTodoDate 100 7 (newTodoService freshStorage))
   \<and> fst (getOrCreateTodoDate 100 7 (resolveAll [(50, 3), (60, 5)] (newTodoService freshStorage)))
       = fst (getOrCreateTodoDate 100 7 (newTodoService freshStorage))"
  using getOrCreateTodoDate_idempotent
          [of 200 7 100 "newTodoService freshStorage" "[(50, 3), (60, 5)]" 100]
  by simp

section \<open>Properties of the paginator\<close>

lemma ceilDiv_is_ceiling:
  assumes "0 < b"
  shows "a \<le> ceilDiv a b * b \<and> (ceilDiv a b - 1) * b < a"
proof -
  define q where "q = (- a) div b"
  define r where "r = (- a) mod b"
  have "q * b + r = - a"
    by (simp add: q_def r_def)
  moreover have "0 \<le> r" and "r < b"
    using assms by (simp_all add: r_def)
  ultimately have "a \<le> - (q * b)" and "- (q * b) - b < a"
    by linarith+
  then show ?thesis
    by (simp add: ceilDiv_def q_def algebra_simps)
qed

lemma totalPages_ge_1: "1 \<le> totalPages p"
  by (simp add: totalPages_def)

lemma totalPages_formula:
  assumes "0 < itemsPerPage p"
  shows "totalPages p = max 1 (ceilDiv (totalItems p) (itemsPerPage p))
         \<and> totalItems p \<le> ceilDiv (totalItems p) (itemsPerPage p) * itemsPerPage p
         \<and> (ceilDiv (totalItems p) (itemsPerPage p) - 1) * itemsPerPage p < totalItems p"
  using ceilDiv_is_ceiling [OF assms, of "totalItems p"] by (simp add: totalPages_def)

lemma totalPages_update [simp]:
  "totalPages (p\<lparr>currentPage := c\<rparr>) = totalPages p"
  "totalPages (p\<lparr>previousPage := c\<rparr>) = totalPages p"
  by (simp_all add: totalPages_def)

lemma totalPages_lift [simp]: "totalPages (lift p) = totalPages p"
  by (simp add: totalPages_def lift_def)

lemma goToPage_number:
  "goToPage (Num n) p =
     (if n < 1 \<or> n > totalPages p \<or> currentPage p = Num n then (p, [])
      else (p\<lparr>previousPage := currentPage p, currentPage := Num n\<rparr>, [Render, PageChange (Num n)]))"
  by (cases "currentPage p") (auto simp: goToPage_def js_lt_def js_gt_def js_eq_def)

lemma goToPage_NaN:
  "goToPage NaN p = (p\<lparr>previousPage := currentPage p, currentPage := NaN\<rparr>, [Render, PageChange NaN])"
  by (simp add: goToPage_def js_lt_def js_gt_def js_eq_def)

lemma updateTotalItemsN_lift:
  "updateTotalItemsN n r (lift p) = liftResult (updateTotalItems n r p)"
  by (simp add: updateTotalItemsN_def updateTotalItems_def liftResult_def lift_def Let_def
        js_gt_def js_eq_def totalPages_def)

lemma inBounds_lift: "inBounds (lift p) \<longleftrightarrow> 1 \<le> currentPage p \<and> currentPage p \<le> totalPages p"
  by (simp add: inBounds_def lift_def totalPages_def)

lemma inBounds_goToPage: "inBounds p \<Longrightarrow> inBounds (fst (goToPage (Num n) p))"
  by (auto simp: goToPage_number inBounds_def split: number.splits)

lemma inBounds_updateTotalItemsN: "inBounds p \<Longrightarrow> inBounds (fst (updateTotalItemsN n r p))"
  using totalPages_ge_1 [of "p\<lparr>totalItems := n\<rparr>"]
  by (cases "currentPage p")
     (auto simp: updateTotalItemsN_def inBounds_def Let_def js_gt_def max_def)

lemma inBounds_reset: "inBounds (fst (reset p))"
  using totalPages_ge_1 [of p] by (simp add: reset_def inBounds_def)

lemma inBounds_click:
  assumes "inBounds p" and "l \<noteq> Ellipsis"
  shows "inBounds (fst (click l p))"
proof -
  from assms(1) obtain c where c: "currentPage p = Num c"
    by (cases "currentPage p") (simp_all add: inBounds_def)
  show ?thesis
    using assms inBounds_goToPage [OF assms(1)]
    by (cases l) (simp_all add: click_def js_plus_def c)
qed

lemma inBounds_perform:
  assumes "inBounds p" and "op \<noteq> GoToPage NaN" and "op \<noteq> Click Ellipsis"
  shows "inBounds (fst (perform op p))"
proof (cases op)
  case (GoToPage n)
  with assms(2) obtain k where "n = Num k" by (cases n) simp_all
  with GoToPage assms(1) show ?thesis by (simp add: inBounds_goToPage)
next
  case (UpdateTotalItems n r)
  with assms(1) show ?thesis by (simp add: inBounds_updateTotalItemsN)
next
  case Reset
  then show ?thesis by (simp add: inBounds_reset)
next
  case (Click l)
  with assms show ?thesis by (simp add: inBounds_click)
qed

lemma inBounds_run:
  assumes "inBounds p" and "GoToPage NaN \<notin> set ops" and "Click Ellipsis \<notin> set ops"
  shows "inBounds (fst (run ops (p, es)))"
  using assms
proof (induction ops arbitrary: p es)
  case Nil
  then show ?case by simp
next
  case (Cons op ops)
  obtain p' es' where step: "perform op p = (p', es')" by (cases "perform op p")
  from Cons.prems have "op \<noteq> GoToPage NaN" "op \<noteq> Click Ellipsis" by auto
  with Cons.prems(1) inBounds_perform [of p op] step have "inBounds p'" by simp
  moreover from Cons.prems have "GoToPage NaN \<notin> set ops" "Click Ellipsis \<notin> set ops" by auto
  ultimately have "inBounds (fst (run ops (p', es @ es')))" by (rule Cons.IH)
  with step show ?case by simp
qed

lemma inBounds_newPagination: "inBounds (lift (fst (newPagination a b)))"
  by (simp add: newPagination_def inBounds_def lift_def totalPages_def)

lemma pagination_bounds_numbers:
  assumes "GoToPage NaN \<notin> set ops" and "Click Ellipsis \<notin> set ops"
  shows "inBounds (fst (run ops (liftResult (newPagination ipp ti))))"
proof -
  have "liftResult (newPagination ipp ti)
          = (lift (fst (newPagination ipp ti)), map (map_effect Num) (snd (newPagination ipp ti)))"
    by (simp add: liftResult_def)
  with inBounds_run [OF inBounds_newPagination assms] show ?thesis by simp
qed

text \<open>
  C6. A component of 10 items per page that is given 100 items is on page 1 of 10 and
  renders an ellipsis between page 5 and page 10. A click on that ellipsis calls
  \<^verbatim>\<open>goToPage(NaN)\<close>: none of the three guards holds, the current page becomes
  \<^verbatim>\<open>NaN\<close>, outside 1 to \<^verbatim>\<open>totalPages\<close>, and \<^verbatim>\<open>onPageChange(NaN)\<close> is called; a later
  \<^verbatim>\<open>updateTotalItems(25, false)\<close> does not clamp it. For every run without
  \<^verbatim>\<open>goToPage(NaN)\<close> and without a click on an ellipsis the bounds hold
  (\<open>pagination_bounds_numbers\<close>), with \<^verbatim>\<open>totalPages\<close> the ceiling of the quotient and at
  least 1 (\<open>totalPages_formula\<close>) and \<^verbatim>\<open>goToPage\<close> as the claim describes it
  (\<open>goToPage_number\<close>).
\<close>

theorem ellipsis_click_leaves_bounds:
  "fst (updateTotalItems 100 False (fst (newPagination (Some 10) None)))
     = \<lparr>itemsPerPage = 10, totalItems = 100, currentPage = 1, previousPage = 1\<rparr>
   \<and> totalPages \<lparr>itemsPerPage = 10, totalItems = 100, currentPage = 1::int, previousPage = 1\<rparr> = 10
   \<and> renderedLinks \<lparr>itemsPerPage = 10, totalItems = 100, currentPage = 1, previousPage = 1\<rparr>
       = [Prev, Page 1, Page 2, Page 3, Page 4, Page 5, Ellipsis, Page 10, Next]
   \<and> click Ellipsis
        (lift \<lparr>itemsPerPage = 10, totalItems = 100, currentPage = 1, previousPage = 1\<rparr>)
       = (\<lparr>itemsPerPage = 10, totalItems = 100, currentPage = NaN, previousPage = Num 1\<rparr>,
          [Render, PageChange NaN])
   \<and> \<not> inBounds \<lparr>itemsPerPage = 10, totalItems = 100, currentPage = NaN, previousPage = Num 1\<rparr>
   \<and> fst (run [UpdateTotalItems 100 False, Click Ellipsis, UpdateTotalItems 25 False]
             (liftResult (newPagination (Some 10) None)))
       = \<lparr>itemsPerPage = 10, totalItems = 25, currentPage = NaN, previousPage = Num 1\<rparr>"
  by (simp add: updateTotalItems_def newPagination_def or_int_def totalPages_def ceilDiv_def
        renderedLinks_def click_def goToPage_NaN lift_def liftResult_def inBounds_def
        updateTotalItemsN_def js_gt_def js_eq_def Let_def upto.simps)

lemma updateTotalItems_currentPage:
  "currentPage (fst (updateTotalItems n r p)) =
     (if r then 1
      else if currentPage p > totalPages (p\<lparr>totalItems := n\<rparr>)
      then totalPages (p\<lparr>totalItems := n\<rparr>)
      else currentPage p)"
  using totalPages_ge_1 [of "p\<lparr>totalItems := n\<rparr>"]
  by (simp add: updateTotalItems_def Let_def max_def)

lemma updateTotalItems_totalPages:
  "totalPages (fst (updateTotalItems n r p)) = totalPages (p\<lparr>totalItems := n\<rparr>)"
  by (simp add: updateTotalItems_def Let_def)

lemma updateTotalItems_effects:
  "snd (updateTotalItems n r p) =
     Render # (if r \<or> currentPage (fst (updateTotalItems n r p)) \<noteq> currentPage p
                  \<or> totalPages p \<noteq> totalPages (fst (updateTotalItems n r p))
               then [PageChange (currentPage (fst (updateTotalItems n r p)))] else [])"
  by (simp add: updateTotalItems_def Let_def)

text \<open>
  C7, as stated, fails: \<^verbatim>\<open>updateTotalItems(5, true)\<close> on page 1 of 1 leaves the page and
  the page count as they were, and still calls \<^verbatim>\<open>onPageChange\<close>.
\<close>

theorem updateTotalItems_reset_signals_counterexample:
  "\<not> (signalled (snd (updateTotalItems 5 True
          \<lparr>itemsPerPage = 10, totalItems = 5, currentPage = 1, previousPage = 1\<rparr>))
      \<longleftrightarrow> (currentPage (fst (updateTotalItems 5 True
                 \<lparr>itemsPerPage = 10, totalItems = 5, currentPage = 1, previousPage = 1\<rparr>))
               \<noteq> currentPage \<lparr>itemsPerPage = 10, totalItems = 5, currentPage = 1, previousPage = 1\<rparr>
             \<or> totalPages (fst (updateTotalItems 5 True
                 \<lparr>itemsPerPage = 10, totalItems = 5, currentPage = 1, previousPage = 1\<rparr>))
               \<noteq> totalPages \<lparr>itemsPerPage = 10, totalItems = 5, currentPage = 1, previousPage = 1\<rparr>))"
  by (simp add: updateTotalItems_def signalled_def totalPages_def ceilDiv_def Let_def)

text \<open>
  C7, amended. \<^verbatim>\<open>updateTotalItems\<close> calls \<^verbatim>\<open>onPageChange\<close>, with the page it ends on,
  exactly when a reset to the first page was asked for, or the page it ends on differs from
  the page before the call, or \<^verbatim>\<open>totalPages\<close> changed. With the current page 4 and 10 items
  per page, \<^verbatim>\<open>updateTotalItems(25, false)\<close> gives 3 pages, moves to page 3 and signals.
\<close>

theorem updateTotalItems_signals:
  "(signalled (snd (updateTotalItems n r p))
      \<longleftrightarrow> (r \<or> currentPage (fst (updateTotalItems n r p)) \<noteq> currentPage p
             \<or> totalPages (fst (updateTotalItems n r p)) \<noteq> totalPages p))
   \<and> (signalled (snd (updateTotalItems n r p)) \<longrightarrow>
        snd (updateTotalItems n r p)
          = [Render, PageChange (currentPage (fst (updateTotalItems n r p)))])
   \<and> (currentPage p = 4 \<and> itemsPerPage p = 10 \<longrightarrow>
        totalPages (fst (updateTotalItems 25 False p)) = 3
        \<and> currentPage (fst (updateTotalItems 25 False p)) = 3
        \<and> snd (updateTotalItems 25 False p) = [Render, PageChange 3])"
proof (intro conjI impI)
  show "signalled (snd (updateTotalItems n r p))
      \<longleftrightarrow> (r \<or> currentPage (fst (updateTotalItems n r p)) \<noteq> currentPage p
             \<or> totalPages (fst (updateTotalItems n r p)) \<noteq> totalPages p)"
    by (subst updateTotalItems_effects) (auto simp: signalled_def)
next
  assume "signalled (snd (updateTotalItems n r p))"
  then show "snd (updateTotalItems n r p)
          = [Render, PageChange (currentPage (fst (updateTotalItems n r p)))]"
    by (subst updateTotalItems_effects, subst (asm) updateTotalItems_effects)
       (auto simp: signalled_def split: if_splits)
next
  assume h: "currentPage p = 4 \<and> itemsPerPage p = 10"
  then have tp: "totalPages (p\<lparr>totalItems := 25\<rparr>) = 3"
    by (simp add: totalPages_def ceilDiv_def)
  show t: "totalPages (fst (updateTotalItems 25 False p)) = 3"
    by (simp add: updateTotalItems_totalPages tp)
  show c: "currentPage (fst (updateTotalItems 25 False p)) = 3"
    using h by (simp add: updateTotalItems_currentPage tp)
  show "snd (updateTotalItems 25 False p) = [Render, PageChange 3]"
    using h by (subst updateTotalItems_effects) (simp add: c)
qed

theorem updateTotalItems_signals_witness:
  "currentPage \<lparr>itemsPerPage = 10, totalItems = 40, currentPage = 4, previousPage = 3\<rparr> = 4
   \<and> itemsPerPage \<lparr>itemsPerPage = 10, totalItems = 40, currentPage = 4, previousPage = 3\<rparr> = 10
   \<and> signalled (snd (updateTotalItems 25 False
        \<lparr>itemsPerPage = 10, totalItems = 40, currentPage = 4, previousPage = 3\<rparr>))
   \<and> totalPages (fst (updateTotalItems 25 False
        \<lparr>itemsPerPage = 10, totalItems = 40, currentPage = 4, previousPage = 3\<rparr>)) = 3
   \<and> currentPage (fst (updateTotalItems 25 False
        \<lparr>itemsPerPage = 10, totalItems = 40, currentPage = 4, previousPage = 3\<rparr>)) = 3
   \<and> snd (updateTotalItems 25 False
        \<lparr>itemsPerPage = 10, totalItems = 40, currentPage = 4, previousPage = 3\<rparr>)
       = [Render, PageChange 3]"
  using updateTotalItems_signals
          [of 25 False "\<lparr>itemsPerPage = 10, totalItems = 40, currentPage = 4, previousPage = 3\<rparr>"]
  by (simp add: signalled_def)

section \<open>Properties of the date range validation\<close>

lemma startOfDay_midnight:
  "startOfDay tz (d * msPerDay) = (d + tz div msPerDay) * msPerDay - tz"
  by (simp add: startOfDay_def msPerDay_def)

lemma start_after_end:
  assumes "df > dt"
  shows "startOfDay tz (df * msPerDay) > endOfDay tz (dt * msPerDay)"
proof -
  from assms have "dt + 1 \<le> df" by simp
  then have "(dt + 1 + tz div msPerDay) * msPerDay \<le> (df + tz div msPerDay) * msPerDay"
    by (simp add: msPerDay_def)
  then have "(dt + tz div msPerDay) * msPerDay + msPerDay \<le> (df + tz div msPerDay) * msPerDay"
    by (simp add: algebra_simps)
  then have "(dt + tz div msPerDay) * msPerDay - tz + (msPerDay - 1)
               < (df + tz div msPerDay) * msPerDay - tz"
    by simp
  then show ?thesis
    by (simp only: endOfDay_def startOfDay_midnight)
qed

lemma validateAndFilter_rejects:
  assumes "df > dt"
  shows "validateAndFilter tz now True (YMD df) (YMD dt) f = (f, Rejected rangeMessage)"
  using start_after_end [OF assms, of tz]
  by (simp add: validateAndFilter_def newDate_def Let_def)

lemma validateAndFilter_no_filter:
  assumes "df > dt"
  shows "\<not> isOnFilter (snd (validateAndFilter tz now e (YMD df) (YMD dt) f))"
  using start_after_end [OF assms, of tz]
  by (simp add: validateAndFilter_def newDate_def Let_def)

lemma validateDateRange_rejects:
  assumes "df > dt"
  shows "validateDateRange (YMD df) (YMD dt)
           = \<lparr>isValid = False, message = ''Start date must be before end date'',
              field = Some ''dateRange''\<rparr>"
  using assms
  by (simp add: validateDateRange_def validateDate_def newDate_def msPerDay_def Let_def)

lemma validateAndFilter_ordered:
  assumes "snd (validateAndFilter tz now e a b f) = OnFilter (Some x) (Some y)"
  shows "x \<le> y"
  using assms
  by (auto simp: validateAndFilter_def Let_def split: if_splits option.splits)

text \<open>
  C8. When both dates are set and the from date is after the to date,
  \<^verbatim>\<open>validateAndFilter\<close> shows the range error, keeps the stored filter and does not call
  \<^verbatim>\<open>onFilter\<close>, and \<^verbatim>\<open>validateDateRange\<close> of the validators returns an invalid result
  for the field \<^verbatim>\<open>dateRange\<close>. Whenever \<^verbatim>\<open>onFilter\<close> is called with two dates, the first
  is not after the second.
\<close>

theorem date_range_rejected:
  "(df > dt \<longrightarrow>
      validateAndFilter tz now True (YMD df) (YMD dt) f = (f, Rejected rangeMessage)
      \<and> \<not> isOnFilter (snd (validateAndFilter tz now e (YMD df) (YMD dt) f))
      \<and> validateDateRange (YMD df) (YMD dt)
          = \<lparr>isValid = False, message = ''Start date must be before end date'',
             field = Some ''dateRange''\<rparr>)
   \<and> (snd (validateAndFilter tz now e a b f) = OnFilter (Some x) (Some y) \<longrightarrow> x \<le> y)"
proof (intro conjI impI)
  assume "dt < df"
  then show "validateAndFilter tz now True (YMD df) (YMD dt) f = (f, Rejected rangeMessage)"
    by (rule validateAndFilter_rejects)
next
  assume "dt < df"
  then show "\<not> isOnFilter (snd (validateAndFilter tz now e (YMD df) (YMD dt) f))"
    by (rule validateAndFilter_no_filter)
next
  assume "dt < df"
  then show "validateDateRange (YMD df) (YMD dt)
          = \<lparr>isValid = False, message = ''Start date must be before end date'',
             field = Some ''dateRange''\<rparr>"
    by (rule validateDateRange_rejects)
next
  assume "snd (validateAndFilter tz now e a b f) = OnFilter (Some x) (Some y)"
  then show "x \<le> y"
    by (rule validateAndFilter_ordered)
qed

text \<open>
  The witness: from 2024-01-10 (day 19732) to 2024-01-05 (day 19727) is rejected; from
  2024-01-05 to 2024-01-10, on 2024-01-18, is passed on as midnight of the first day and
  the last millisecond of the second.
\<close>

theorem date_range_rejected_witness:
  "(19732::int) > 19727
   \<and> validateAndFilter 0 0 True (YMD 19732) (YMD 19727) \<lparr>fromDate = None, toDate = None\<rparr>
       = (\<lparr>fromDate = None, toDate = None\<rparr>, Rejected rangeMessage)
   \<and> isValid (validateDateRange (YMD 19732) (YMD 19727)) = False
   \<and> snd (validateAndFilter 0 (19740 * msPerDay) True (YMD 19727) (YMD 19732)
            \<lparr>fromDate = None, toDate = None\<rparr>)
       = OnFilter (Some (19727 * msPerDay)) (Some (19732 * msPerDay + (msPerDay - 1)))
   \<and> 19727 * msPerDay \<le> 19732 * msPerDay + (msPerDay - 1)"
  using date_range_rejected
          [of 19727 19732 0 0 "\<lparr>fromDate = None, toDate = None\<rparr>" True Blank Blank 0 0]
        date_range_rejected
          [of 0 0 0 "19740 * msPerDay" "\<lparr>fromDate = None, toDate = None\<rparr>" True
              "YMD 19727" "YMD 19732" "19727 * msPerDay" "19732 * msPerDay + (msPerDay - 1)"]
  by (simp add: validateAndFilter_def newDate_def startOfDay_def endOfDay_def msPerDay_def
        Let_def)

section \<open>Properties of the creation path\<close>

lemma validateTodoText_valid_iff:
  "isValid (validateTodoText v) \<longleftrightarrow> 3 \<le> length (trim v) \<and> length (trim v) \<le> 100"
  by (auto simp: validateTodoText_def validateMinLength_def validateMaxLength_def
        validateRequired_def Let_def)

lemma validateInput_iff: "validateInput v \<longleftrightarrow> trim v \<noteq> []"
  by (simp add: validateInput_def)

lemma handleSubmit_accepts:
  "trim v \<noteq> [] \<Longrightarrow>
     handleSubmit v c = Some \<lparr>data_title = Some (trim v), data_todo = None,
                              data_completed = Some c, data_userId = None\<rparr>"
  by (simp add: handleSubmit_def validateForm_def validateInput_def)

lemma trim_ab: "trim ''ab'' = ''ab''"
  by (simp add: trim_def isSpace_def)

lemma decimal_3: "decimal 3 = ''3''"
  by (simp add: decimal.simps digit_def)

text \<open>
  C9. The form accepts the text \<^verbatim>\<open>ab\<close>, two characters after trimming: \<^verbatim>\<open>_validateInput\<close>
  only asks for a non-empty text, the data reach \<^verbatim>\<open>addTodo\<close>, which validates nothing,
  and a record titled \<^verbatim>\<open>ab\<close> results. \<^verbatim>\<open>validateTodoText\<close>, the rule that
  \<^verbatim>\<open>createTodoFormValidationRules\<close> names for the form, rejects the same text.
\<close>

theorem todo_form_accepts_short_text:
  "validateInput ''ab''
   \<and> handleSubmit ''ab'' False
       = Some \<lparr>data_title = Some ''ab'', data_todo = None,
                data_completed = Some False, data_userId = None\<rparr>
   \<and> (case submitTodo 1700000000000 1700000000000 1700000000001 (\<lambda>d. Inl ApiError)
              ''ab'' False (newTodoService freshStorage) of
         Some (Inr t, s') \<Rightarrow> title t = Some ''ab''
       | _ \<Rightarrow> False)
   \<and> \<not> isValid (validateTodoText ''ab'')
   \<and> message (validateTodoText ''ab'') = ''Must be at least 3 characters''"
  by (simp add: validateInput_iff handleSubmit_accepts trim_ab submitTodo_def addTodo_def apiDataOf_def fallbackTodo_def
        Let_def or_text_def validateTodoText_def validateMinLength_def validateRequired_def decimal_3)

section \<open>Properties of the local store\<close>

lemma getLocalTodos_stored:
  "getLocalTodos s = sort_key (\<lambda>a. - sortDate a) (storedTodos s)"
  by (simp add: getLocalTodos_def getLocalTodos_body_def storedTodos_def split: slot.splits)

lemma mset_getLocalTodos: "mset (getLocalTodos s) = mset (storedTodos s)"
  by (simp add: getLocalTodos_stored)

lemma length_getLocalTodos: "length (getLocalTodos s) = length (storedTodos s)"
  by (simp add: getLocalTodos_stored)

lemma newest_first_getLocalTodos:
  "sorted_wrt (\<lambda>a b. sortDate b \<le> sortDate a) (getLocalTodos s)"
proof -
  have "sorted (map (\<lambda>a. - sortDate a) (getLocalTodos s))"
    by (simp add: getLocalTodos_stored)
  then show ?thesis
    by (simp add: sorted_wrt_map)
qed

lemma findIndex_Some:
  "findIndex P xs = Some i \<Longrightarrow> i < length xs \<and> P (xs ! i)"
  by (induction xs arbitrary: i) (auto split: if_splits option.splits)

lemma findIndex_None:
  "findIndex P xs = None \<Longrightarrow> \<forall>x\<in>set xs. \<not> P x"
  by (induction xs) (auto split: if_splits option.splits)

lemma todo_id_spread [simp]: "todo_id (spread a b) = todo_id b"
  by (simp add: spread_def)

lemma saveLocalTodo_body_ids:
  assumes "saveLocalTodo_body now t ls = Inr ls'"
      and "todo_app_local_todos ls = Present xs"
      and "distinct (map todo_id xs)"
  shows "\<exists>ys. todo_app_local_todos ls' = Present ys \<and> distinct (map todo_id ys)"
proof (cases "todo_id t = 0")
  case True
  with assms show ?thesis by (simp add: saveLocalTodo_body_def)
next
  case False
  show ?thesis
  proof (cases "findIndex (\<lambda>u. todo_id u = todo_id t) xs")
    case None
    from findIndex_None [OF None] have "todo_id t \<notin> todo_id ` set xs" by auto
    with assms False None show ?thesis
      by (auto simp: saveLocalTodo_body_def Let_def split: if_splits)
  next
    case (Some i)
    from findIndex_Some [OF Some] have i: "i < length xs" "todo_id (xs ! i) = todo_id t" by auto
    have "map todo_id (xs[i := (spread (xs ! i) t)\<lparr>updatedAt := Some now\<rparr>]) = map todo_id xs"
      using i by (simp add: map_update list_update_same_conv)
    with assms False Some show ?thesis
      by (auto simp: saveLocalTodo_body_def Let_def split: if_splits)
  qed
qed

lemma saveLocalTodo_distinct_ids:
  assumes "distinct (map todo_id (storedTodos s))"
  shows "distinct (map todo_id (storedTodos (saveLocalTodo now t s)))"
proof (cases "saveLocalTodo_body now t (localStorage s)")
  case (Inl e)
  with assms show ?thesis by (simp add: saveLocalTodo_def)
next
  case (Inr ls')
  show ?thesis
  proof (cases "todo_app_local_todos (localStorage s)")
    case Absent
    with Inr show ?thesis
      by (auto simp: saveLocalTodo_def saveLocalTodo_body_def storedTodos_def Let_def
            split: if_splits)
  next
    case Corrupt
    with Inr show ?thesis
      by (auto simp: saveLocalTodo_def saveLocalTodo_body_def storedTodos_def Let_def
            split: if_splits)
  next
    case (Present xs)
    with assms have "distinct (map todo_id xs)" by (simp add: storedTodos_def)
    from saveLocalTodo_body_ids [OF Inr Present this] Inr show ?thesis
      by (auto simp: saveLocalTodo_def storedTodos_def)
  qed
qed

lemma distinct_ids_getLocalTodos:
  "distinct (map todo_id (getLocalTodos s)) \<longleftrightarrow> distinct (map todo_id (storedTodos s))"
proof -
  have "mset (map todo_id (getLocalTodos s)) = mset (map todo_id (storedTodos s))"
    by (simp add: getLocalTodos_stored)
  then show ?thesis
    by (metis mset_eq_imp_distinct_iff)
qed

lemma sortDate_localTodo [simp]: "sortDate (localTodo n) = int n * msPerDay"
  by (simp add: sortDate_def localTodo_def)

lemma getLocalTodos_twelveLocal:
  "getLocalTodos twelveLocal = map localTodo [12, 11, 10, 9, 8, 7, 6, 5, 4, 3, 2, 1]"
  by (simp add: getLocalTodos_stored storedTodos_def twelveLocal_def freshStorage_def
        msPerDay_def)

lemma getLocalTodos_twoLocal: "getLocalTodos twoLocal = [localTodo 5, localTodo 1]"
  by (simp add: getLocalTodos_stored storedTodos_def twoLocal_def freshStorage_def msPerDay_def)

section \<open>Properties of the merge\<close>

lemma todo_id_transformTodoItem:
  "todo_id (fst (transformTodoItem now item s)) = item_id item"
  by (simp add: transformTodoItem_def split: prod.splits)

lemma ids_transformAll:
  "map todo_id (fst (transformAll now items s)) = map item_id items"
proof (induction items arbitrary: s)
  case Nil
  then show ?case by simp
next
  case (Cons item items)
  obtain t s1 where a: "transformTodoItem now item s = (t, s1)"
    by (cases "transformTodoItem now item s")
  obtain ts s2 where b: "transformAll now items s1 = (ts, s2)"
    by (cases "transformAll now items s1")
  from a have "todo_id t = item_id item"
    using todo_id_transformTodoItem [of now item s] by simp
  moreover from b Cons.IH [of s1] have "map todo_id ts = map item_id items" by simp
  ultimately show ?case using a b by simp
qed

lemma transformTodosResponse_paged:
  assumes "fst (transformTodosResponse now (Paged (Some items) (Some (Suc n)) lo so) s) = Inr td"
  shows "map todo_id (todos td) = map item_id items \<and> total (pagination td) = Suc n"
proof -
  obtain ts s' where t: "transformAll now items s = (ts, s')"
    by (cases "transformAll now items s")
  with ids_transformAll [of now items s] have "map todo_id ts = map item_id items" by simp
  with assms t show ?thesis
    by (auto simp: transformTodosResponse_def or_number_def Let_def)
qed

lemma transformTodosResponse_items:
  assumes "fst (transformTodosResponse now (Items items) s) = Inr td"
  shows "map todo_id (todos td) = map item_id items \<and> total (pagination td) = length items"
proof -
  obtain ts s' where t: "transformAll now items s = (ts, s')"
    by (cases "transformAll now items s")
  with ids_transformAll [of now items s] have "map todo_id ts = map item_id items" by simp
  with assms t show ?thesis
    by (auto simp: transformTodosResponse_def Let_def)
qed

lemma transformTodosResponse_succeeds:
  "\<forall>items. response \<noteq> Malformed items \<Longrightarrow>
     \<exists>td. fst (transformTodosResponse now response s) = Inr td"
  by (cases response) (auto simp: transformTodosResponse_def Let_def split: prod.splits)

lemma localStorage_todos_getOrCreateTodoDate:
  "todo_app_local_todos (localStorage (snd (getOrCreateTodoDate now i s)))
     = todo_app_local_todos (localStorage s)"
  by (simp add: getOrCreateTodoDate_def saveCreationDates_def Let_def split: option.splits)

lemma localStorage_todos_transformAll:
  "todo_app_local_todos (localStorage (snd (transformAll now items s)))
     = todo_app_local_todos (localStorage s)"
proof (induction items arbitrary: s)
  case Nil
  then show ?case by simp
next
  case (Cons item items)
  obtain t s1 where a: "transformTodoItem now item s = (t, s1)"
    by (cases "transformTodoItem now item s")
  obtain ts s2 where b: "transformAll now items s1 = (ts, s2)"
    by (cases "transformAll now items s1")
  have "s1 = snd (getOrCreateTodoDate now (item_id item) s)"
    using a by (simp add: transformTodoItem_def split: prod.splits)
  then have "todo_app_local_todos (localStorage s1) = todo_app_local_todos (localStorage s)"
    by (simp add: localStorage_todos_getOrCreateTodoDate)
  moreover from b Cons.IH [of s1]
  have "todo_app_local_todos (localStorage s2) = todo_app_local_todos (localStorage s1)"
    by simp
  ultimately show ?case using a b by simp
qed

lemma storedTodos_transformAll:
  "storedTodos (snd (transformAll now items s)) = storedTodos s"
  by (simp add: storedTodos_def localStorage_todos_transformAll)

lemma fetchTodos_remote_rejected:
  "apiGet lim skp = Inl e \<Longrightarrow> fetchTodos_remote now apiGet lim skp ls s = (Inl e, s)"
  by (simp add: fetchTodos_remote_def)

lemma fetchTodos_remote_malformed:
  "apiGet lim skp = Inr (Malformed items) \<Longrightarrow>
     fetchTodos_remote now apiGet lim skp ls s = (Inl TypeError, snd (transformAll now items s))"
  by (simp add: fetchTodos_remote_def transformTodosResponse_def split: prod.splits)

lemma fetchTodos_remote_no_todos:
  "apiGet lim skp = Inr (Paged None tot lo so) \<Longrightarrow>
     fetchTodos_remote now apiGet lim skp ls s =
       (Inr \<lparr>todos = ls,
             pagination = \<lparr>total = or_number tot 0 + length ls,
                           limit = or_number lo config_itemsPerPage,
                           skip = or_number so 0\<rparr>\<rparr>, s)"
  by (cases ls)
     (simp_all add: fetchTodos_remote_def transformTodosResponse_def uniqueLocalTodos_def Let_def)

lemma uniqueLocalTodos_filter:
  "uniqueLocalTodos rs ls = filter (\<lambda>l. todo_id l \<notin> todo_id ` set rs) ls"
  unfolding uniqueLocalTodos_def list_ex_iff
  by (rule filter_cong) (auto intro: rev_image_eqI)

lemma fetchTodos_remote_success:
  assumes "apiGet lim skp = Inr response"
      and "fst (transformTodosResponse now response s) = Inr td"
  shows "fst (fetchTodos_remote now apiGet lim skp ls s) =
           Inr \<lparr>todos = uniqueLocalTodos (todos td) ls @ todos td,
                pagination = (pagination td)
                  \<lparr>total := total (pagination td) + length (uniqueLocalTodos (todos td) ls)\<rparr>\<rparr>"
proof -
  obtain s1 where t: "transformTodosResponse now response s = (Inr td, s1)"
    using assms(2) by (cases "transformTodosResponse now response s") simp
  show ?thesis
  proof (cases "uniqueLocalTodos (todos td) ls = []")
    case True
    then show ?thesis
      using assms(1) t by (simp add: fetchTodos_remote_def Let_def)
  next
    case False
    then show ?thesis
      using assms(1) t by (simp add: fetchTodos_remote_def Let_def)
  qed
qed

lemma merged_distinct:
  assumes "distinct (map todo_id ls)" and "distinct (map todo_id rs)"
  shows "distinct (map todo_id (uniqueLocalTodos rs ls @ rs))"
  using assms by (auto simp: uniqueLocalTodos_filter distinct_map_filter)

lemma merged_ids:
  "todo_id ` set (uniqueLocalTodos rs ls @ rs) = todo_id ` set ls \<union> todo_id ` set rs"
  by (auto simp: uniqueLocalTodos_filter)

lemma merged_remote_wins:
  "t \<in> set (uniqueLocalTodos rs ls @ rs) \<Longrightarrow> todo_id t \<in> todo_id ` set rs \<Longrightarrow> t \<in> set rs"
  by (auto simp: uniqueLocalTodos_filter)

lemma transform_remotePage:
  "fst (transformTodosResponse 0 (Paged (Some [remoteItem 1, remoteItem 2]) (Some 150) (Some 10) None)
          twoLocal)
     = Inr \<lparr>todos = [remoteTodo 1, remoteTodo 2],
            pagination = \<lparr>total = 150, limit = 10, skip = 0\<rparr>\<rparr>"
  by (simp add: transformTodosResponse_def transformTodoItem_def getOrCreateTodoDate_def
        saveCreationDates_def twoLocal_def freshStorage_def remoteItem_def remoteTodo_def
        or_text_def or_number_def addDays_def Let_def)

text \<open>
  C1. When the remote request succeeds, with normalized records \<open>todos td\<close> and normalized
  total \<open>total (pagination td)\<close>, \<^verbatim>\<open>fetchTodos\<close> returns the local todos whose id no
  remote record has, in the order of the store, followed by the remote records, and the
  total is the remote total plus the number of those local todos. The ids of the result are
  those of the local and of the remote records; a record of the result whose id a remote
  record has is a remote record; and when the ids are distinct among the local todos and
  among the remote records, they are distinct in the result. The normalized records carry
  the ids of the items of the response, in their order, and the normalized total is the
  total the response reports, or the number of items of a bare array.
\<close>

theorem fetchTodos_merge:
  assumes "apiGet (requestLimit limit_opt) (requestSkip page_opt limit_opt) = Inr response"
      and "fst (transformTodosResponse now response s) = Inr td"
  shows "\<exists>r. fst (fetchTodos now apiGet page_opt limit_opt s) = Inr r
           \<and> todos r = uniqueLocalTodos (todos td) (getLocalTodos s) @ todos td
           \<and> uniqueLocalTodos (todos td) (getLocalTodos s)
               = filter (\<lambda>l. todo_id l \<notin> todo_id ` set (todos td)) (getLocalTodos s)
           \<and> total (pagination r)
               = total (pagination td) + length (uniqueLocalTodos (todos td) (getLocalTodos s))
           \<and> (distinct (map todo_id (getLocalTodos s)) \<and> distinct (map todo_id (todos td))
                \<longrightarrow> distinct (map todo_id (todos r)))
           \<and> todo_id ` set (todos r)
               = todo_id ` set (getLocalTodos s) \<union> todo_id ` set (todos td)
           \<and> (\<forall>t\<in>set (todos r). todo_id t \<in> todo_id ` set (todos td) \<longrightarrow> t \<in> set (todos td))
           \<and> (\<forall>items n lo so. response = Paged (Some items) (Some (Suc n)) lo so \<longrightarrow>
                 map todo_id (todos td) = map item_id items \<and> total (pagination td) = Suc n)
           \<and> (\<forall>items. response = Items items \<longrightarrow>
                 map todo_id (todos td) = map item_id items
                 \<and> total (pagination td) = length items)"
proof -
  let ?ls = "getLocalTodos s"
  let ?r = "\<lparr>todos = uniqueLocalTodos (todos td) ?ls @ todos td,
             pagination = (pagination td)
               \<lparr>total := total (pagination td) + length (uniqueLocalTodos (todos td) ?ls)\<rparr>\<rparr>"
  have inner: "fst (fetchTodos_remote now apiGet (requestLimit limit_opt)
                      (requestSkip page_opt limit_opt) ?ls s) = Inr ?r"
    using assms by (rule fetchTodos_remote_success)
  have "fst (fetchTodos now apiGet page_opt limit_opt s) = Inr ?r"
    using inner
    by (cases "fetchTodos_remote now apiGet (requestLimit limit_opt)
                 (requestSkip page_opt limit_opt) ?ls s")
       (simp add: fetchTodos_def Let_def)
  moreover have "distinct (map todo_id ?ls) \<and> distinct (map todo_id (todos td))
                   \<longrightarrow> distinct (map todo_id (todos ?r))"
    using merged_distinct [of ?ls "todos td"] by simp
  moreover have "todo_id ` set (todos ?r) = todo_id ` set ?ls \<union> todo_id ` set (todos td)"
    using merged_ids [of "todos td" ?ls] by simp
  moreover have "\<forall>t\<in>set (todos ?r). todo_id t \<in> todo_id ` set (todos td) \<longrightarrow> t \<in> set (todos td)"
    by (auto simp: uniqueLocalTodos_filter)
  moreover have "todos ?r = uniqueLocalTodos (todos td) ?ls @ todos td" by simp
  moreover have "total (pagination ?r)
                   = total (pagination td) + length (uniqueLocalTodos (todos td) ?ls)" by simp
  moreover have "\<forall>items n lo so. response = Paged (Some items) (Some (Suc n)) lo so \<longrightarrow>
                   map todo_id (todos td) = map item_id items \<and> total (pagination td) = Suc n"
    using assms(2) transformTodosResponse_paged by blast
  moreover have "\<forall>items. response = Items items \<longrightarrow>
                   map todo_id (todos td) = map item_id items
                   \<and> total (pagination td) = length items"
    using assms(2) transformTodosResponse_items by blast
  ultimately show ?thesis
    using uniqueLocalTodos_filter [of "todos td" ?ls] by blast
qed

theorem fetchTodos_merge_witness:
  "remotePage (requestLimit (Some 10)) (requestSkip (Some 1) (Some 10))
     = Inr (Paged (Some [remoteItem 1, remoteItem 2]) (Some 150) (Some 10) None)
   \<and> fst (transformTodosResponse 0
            (Paged (Some [remoteItem 1, remoteItem 2]) (Some 150) (Some 10) None) twoLocal)
       = Inr \<lparr>todos = [remoteTodo 1, remoteTodo 2],
              pagination = \<lparr>total = 150, limit = 10, skip = 0\<rparr>\<rparr>
   \<and> (\<exists>r. fst (fetchTodos 0 remotePage (Some 1) (Some 10) twoLocal) = Inr r
          \<and> todos r = [localTodo 5, remoteTodo 1, remoteTodo 2]
          \<and> total (pagination r) = 151
          \<and> distinct (map todo_id (todos r)))"
proof -
  have h1: "remotePage (requestLimit (Some 10)) (requestSkip (Some 1) (Some 10))
              = Inr (Paged (Some [remoteItem 1, remoteItem 2]) (Some 150) (Some 10) None)"
    by (simp add: remotePage_def)
  note h2 = transform_remotePage
  have u: "uniqueLocalTodos [remoteTodo 1, remoteTodo 2] (getLocalTodos twoLocal) = [localTodo 5]"
    by (simp add: uniqueLocalTodos_def getLocalTodos_twoLocal localTodo_def remoteTodo_def)
  from fetchTodos_merge [where apiGet = remotePage and limit_opt = "Some 10"
         and page_opt = "Some 1", OF h1 h2] obtain r where
    r: "fst (fetchTodos 0 remotePage (Some 1) (Some 10) twoLocal) = Inr r"
       "todos r = uniqueLocalTodos [remoteTodo 1, remoteTodo 2] (getLocalTodos twoLocal)
                    @ [remoteTodo 1, remoteTodo 2]"
       "total (pagination r)
          = 150 + length (uniqueLocalTodos [remoteTodo 1, remoteTodo 2] (getLocalTodos twoLocal))"
    by auto
  have "todos r = [localTodo 5, remoteTodo 1, remoteTodo 2]"
    using r(2) u by simp
  moreover have "total (pagination r) = 151"
    using r(3) u by simp
  moreover have "distinct (map todo_id [localTodo 5, remoteTodo 1, remoteTodo 2])"
    by (simp add: localTodo_def remoteTodo_def)
  ultimately show ?thesis
    using h1 h2 r(1) by auto
qed

text \<open>
  C2, as stated, fails: a body with a total of 150 and no list of todos does not make the
  transformation throw, so it is not a failure for \<^verbatim>\<open>fetchTodos\<close>: with two stored
  todos the result holds the two of them and the total 152, not 2.
\<close>

theorem fetchTodos_total_without_todos_counterexample:
  "fetchTodos 0 totalOnly (Some 1) (Some 10) twoLocal
     = (Inr \<lparr>todos = [localTodo 5, localTodo 1],
             pagination = \<lparr>total = 152, limit = 10, skip = 0\<rparr>\<rparr>, twoLocal)
   \<and> length (storedTodos twoLocal) = 2"
proof
  show "fetchTodos 0 totalOnly (Some 1) (Some 10) twoLocal
     = (Inr \<lparr>todos = [localTodo 5, localTodo 1],
             pagination = \<lparr>total = 152, limit = 10, skip = 0\<rparr>\<rparr>, twoLocal)"
    by (simp add: fetchTodos_def totalOnly_def fetchTodos_remote_no_todos
          getLocalTodos_twoLocal or_number_def Let_def)
next
  show "length (storedTodos twoLocal) = 2"
    by (simp add: storedTodos_def twoLocal_def)
qed

text \<open>
  C2, amended. When the request rejects, \<^verbatim>\<open>fetchTodos\<close> does not reject: it resolves to
  the local todos, all of the stored ones and nothing else, with their number as the total,
  and the service is as it was. When the body makes the transformation throw, the result is
  the same and the store of todos is as it was, while the dates of the items transformed
  before the exception stay cached. A body without a list of todos that does not throw is
  merged as an empty page: the todos are the local ones, and the total is the total of the
  body, 0 when it has none, plus the number of local todos.
\<close>

theorem fetchTodos_fallback:
  "(apiGet (requestLimit limit_opt) (requestSkip page_opt limit_opt) = Inl e \<longrightarrow>
      fetchTodos now apiGet page_opt limit_opt s
        = (Inr \<lparr>todos = getLocalTodos s,
                pagination = \<lparr>total = length (storedTodos s),
                              limit = requestLimit limit_opt, skip = 0\<rparr>\<rparr>, s))
   \<and> (apiGet (requestLimit limit_opt) (requestSkip page_opt limit_opt) = Inr (Malformed items) \<longrightarrow>
      fetchTodos now apiGet page_opt limit_opt s
        = (Inr \<lparr>todos = getLocalTodos s,
                pagination = \<lparr>total = length (storedTodos s),
                              limit = requestLimit limit_opt, skip = 0\<rparr>\<rparr>,
           snd (transformAll now items s))
      \<and> storedTodos (snd (transformAll now items s)) = storedTodos s)
   \<and> (apiGet (requestLimit limit_opt) (requestSkip page_opt limit_opt)
        = Inr (Paged None tot lo so) \<longrightarrow>
      fetchTodos now apiGet page_opt limit_opt s
        = (Inr \<lparr>todos = getLocalTodos s,
                pagination = \<lparr>total = or_number tot 0 + length (storedTodos s),
                              limit = or_number lo config_itemsPerPage,
                              skip = or_number so 0\<rparr>\<rparr>, s))
   \<and> mset (getLocalTodos s) = mset (storedTodos s)"
  by (simp add: fetchTodos_def Let_def mset_getLocalTodos length_getLocalTodos
        storedTodos_transformAll fetchTodos_remote_rejected fetchTodos_remote_malformed
        fetchTodos_remote_no_todos)

theorem fetchTodos_fallback_witness:
  "unreachable (requestLimit (Some 10)) (requestSkip (Some 1) (Some 10)) = Inl ApiError
   \<and> malformedPage (requestLimit (Some 10)) (requestSkip (Some 1) (Some 10))
       = Inr (Malformed [remoteItem 2])
   \<and> totalOnly (requestLimit (Some 10)) (requestSkip (Some 1) (Some 10))
       = Inr (Paged None (Some 150) (Some 10) None)
   \<and> fetchTodos 0 unreachable (Some 1) (Some 10) twoLocal
       = (Inr \<lparr>todos = [localTodo 5, localTodo 1],
               pagination = \<lparr>total = 2, limit = 10, skip = 0\<rparr>\<rparr>, twoLocal)
   \<and> fst (fetchTodos 0 malformedPage (Some 1) (Some 10) twoLocal)
       = Inr \<lparr>todos = [localTodo 5, localTodo 1],
              pagination = \<lparr>total = 2, limit = 10, skip = 0\<rparr>\<rparr>
   \<and> creationDates (snd (fetchTodos 0 malformedPage (Some 1) (Some 10) twoLocal)) 2
       = Some (- (2 * msPerDay))
   \<and> storedTodos (snd (fetchTodos 0 malformedPage (Some 1) (Some 10) twoLocal))
       = storedTodos twoLocal
   \<and> fst (fetchTodos 0 totalOnly (Some 1) (Some 10) twoLocal)
       = Inr \<lparr>todos = [localTodo 5, localTodo 1],
              pagination = \<lparr>total = 152, limit = 10, skip = 0\<rparr>\<rparr>"
proof -
  have h1: "unreachable (requestLimit (Some 10)) (requestSkip (Some 1) (Some 10)) = Inl ApiError"
    by (simp add: unreachable_def)
  have h2: "malformedPage (requestLimit (Some 10)) (requestSkip (Some 1) (Some 10))
              = Inr (Malformed [remoteItem 2])"
    by (simp add: malformedPage_def)
  have h3: "totalOnly (requestLimit (Some 10)) (requestSkip (Some 1) (Some 10))
              = Inr (Paged None (Some 150) (Some 10) None)"
    by (simp add: totalOnly_def)
  have n: "length (storedTodos twoLocal) = 2" "requestLimit (Some 10) = 10"
    by (simp_all add: storedTodos_def twoLocal_def requestLimit_def or_number_def)
  have d: "creationDates (snd (transformAll 0 [remoteItem 2] twoLocal)) 2 = Some (- (2 * msPerDay))"
    by (simp add: transformTodoItem_def getOrCreateTodoDate_def saveCreationDates_def
          twoLocal_def freshStorage_def remoteItem_def addDays_def Let_def)
  from h1 fetchTodos_fallback [where apiGet = unreachable and limit_opt = "Some 10"
         and page_opt = "Some 1" and now = 0 and s = twoLocal and e = ApiError]
  have r1: "fetchTodos 0 unreachable (Some 1) (Some 10) twoLocal
              = (Inr \<lparr>todos = [localTodo 5, localTodo 1],
                      pagination = \<lparr>total = 2, limit = 10, skip = 0\<rparr>\<rparr>, twoLocal)"
    by (simp add: n getLocalTodos_twoLocal)
  from h2 fetchTodos_fallback [where apiGet = malformedPage and limit_opt = "Some 10"
         and page_opt = "Some 1" and now = 0 and s = twoLocal and items = "[remoteItem 2]"]
  have r2: "fetchTodos 0 malformedPage (Some 1) (Some 10) twoLocal
              = (Inr \<lparr>todos = [localTodo 5, localTodo 1],
                      pagination = \<lparr>total = 2, limit = 10, skip = 0\<rparr>\<rparr>,
                 snd (transformAll 0 [remoteItem 2] twoLocal))"
       and r2': "storedTodos (snd (transformAll 0 [remoteItem 2] twoLocal)) = storedTodos twoLocal"
    by (simp_all add: n getLocalTodos_twoLocal del: transformAll.simps)
  from h3 fetchTodos_fallback [where apiGet = totalOnly and limit_opt = "Some 10"
         and page_opt = "Some 1" and now = 0 and s = twoLocal and tot = "Some 150"
         and lo = "Some 10" and so = None]
  have r3: "fetchTodos 0 totalOnly (Some 1) (Some 10) twoLocal
              = (Inr \<lparr>todos = [localTodo 5, localTodo 1],
                      pagination = \<lparr>total = 152, limit = 10, skip = 0\<rparr>\<rparr>, twoLocal)"
    by (simp add: n getLocalTodos_twoLocal or_number_def)
  show ?thesis
    using h1 h2 h3 d r1 r2 r2' r3 by (simp del: transformAll.simps)
qed

text \<open>
  C3, as stated, fails: with twelve stored todos and the remote source unreachable,
  \<^verbatim>\<open>fetchTodos({page: 1, limit: 10})\<close> returns all twelve, newest first, not ten of them.
\<close>

theorem fetchTodos_returns_all_local_counterexample:
  "fst (fetchTodos 0 unreachable (Some 1) (Some 10) twelveLocal)
     = Inr \<lparr>todos = map localTodo [12, 11, 10, 9, 8, 7, 6, 5, 4, 3, 2, 1],
            pagination = \<lparr>total = 12, limit = 10, skip = 0\<rparr>\<rparr>
   \<and> length (map localTodo [12, 11, 10, 9, 8, 7, 6, 5, 4, 3, 2, 1]) = 12
   \<and> length (map localTodo [12, 11, 10, 9, 8, 7, 6, 5, 4, 3, 2, 1]) \<noteq> 10"
  by (simp add: fetchTodos_def fetchTodos_remote_def unreachable_def getLocalTodos_twelveLocal
        requestLimit_def or_number_def Let_def)

text \<open>
  C3, amended. With any twelve stored todos and the remote source unreachable,
  \<^verbatim>\<open>fetchTodos({page: 1, limit: 10})\<close> resolves to all twelve of them, newest first, with
  total 12; a paginator of page size 10 that is given this total has 2 pages.
\<close>

theorem fetchTodos_fallback_twelve:
  assumes "todo_app_local_todos (localStorage s) = Present ts"
      and "length ts = 12"
      and "apiGet (requestLimit (Some 10)) (requestSkip (Some 1) (Some 10)) = Inl e"
  shows "\<exists>r. fst (fetchTodos now apiGet (Some 1) (Some 10) s) = Inr r
           \<and> length (todos r) = 12
           \<and> mset (todos r) = mset ts
           \<and> sorted_wrt (\<lambda>a b. sortDate b \<le> sortDate a) (todos r)
           \<and> total (pagination r) = 12
           \<and> totalPages (fst (updateTotalItems (int (total (pagination r))) False
                                 (fst (newPagination (Some 10) (Some 0))))) = 2"
proof -
  have st: "storedTodos s = ts"
    using assms(1) by (simp add: storedTodos_def)
  have "fetchTodos now apiGet (Some 1) (Some 10) s
          = (Inr \<lparr>todos = getLocalTodos s,
                  pagination = \<lparr>total = length (getLocalTodos s),
                                limit = requestLimit (Some 10), skip = 0\<rparr>\<rparr>, s)"
    using assms(3) by (simp add: fetchTodos_def fetchTodos_remote_rejected Let_def)
  moreover have "length (getLocalTodos s) = 12"
    using assms(2) st by (simp add: length_getLocalTodos)
  moreover have "mset (getLocalTodos s) = mset ts"
    using st by (simp add: mset_getLocalTodos)
  moreover have "totalPages (fst (updateTotalItems 12 False (fst (newPagination (Some 10) (Some 0))))) = 2"
    by (simp add: updateTotalItems_def newPagination_def totalPages_def ceilDiv_def or_int_def Let_def)
  ultimately show ?thesis
    using newest_first_getLocalTodos [of s] by simp
qed

theorem fetchTodos_fallback_twelve_witness:
  "todo_app_local_todos (localStorage twelveLocal)
     = Present (map localTodo [1, 2, 3, 4, 5, 6, 7, 8, 9, 10, 11, 12])
   \<and> length (map localTodo [1, 2, 3, 4, 5, 6, 7, 8, 9, 10, 11, 12]) = 12
   \<and> unreachable (requestLimit (Some 10)) (requestSkip (Some 1) (Some 10)) = Inl ApiError
   \<and> (\<exists>r. fst (fetchTodos 0 unreachable (Some 1) (Some 10) twelveLocal) = Inr r
          \<and> length (todos r) = 12
          \<and> total (pagination r) = 12
          \<and> totalPages (fst (updateTotalItems (int (total (pagination r))) False
                                (fst (newPagination (Some 10) (Some 0))))) = 2)"
proof -
  have h1: "todo_app_local_todos (localStorage twelveLocal)
              = Present (map localTodo [1, 2, 3, 4, 5, 6, 7, 8, 9, 10, 11, 12])"
    by (simp add: twelveLocal_def freshStorage_def)
  have h2: "length (map localTodo [1, 2, 3, 4, 5, 6, 7, 8, 9, 10, 11, 12]) = 12"
    by simp
  have h3: "unreachable (requestLimit (Some 10)) (requestSkip (Some 1) (Some 10)) = Inl ApiError"
    by (simp add: unreachable_def)
  from fetchTodos_fallback_twelve [where apiGet = unreachable and now = 0, OF h1 h2 h3] show ?thesis
    using h1 h2 h3 by blast
qed

section \<open>Properties of addTodo\<close>

lemma saveLocalTodo_stores:
  assumes "todo_id t \<noteq> 0"
      and "todo_app_local_todos (localStorage s) \<noteq> Corrupt"
      and "writable (localStorage s)"
  shows "\<exists>u\<in>set (storedTodos (saveLocalTodo now t s)).
           todo_id u = todo_id t \<and> title u = title t \<and> completed u = completed t
           \<and> userId u = userId t \<and> createdAt u = createdAt t
           \<and> (isLocal t \<noteq> None \<longrightarrow> isLocal u = isLocal t)"
proof -
  define xs where "xs = (case todo_app_local_todos (localStorage s) of Present ts \<Rightarrow> ts | _ \<Rightarrow> [])"
  show ?thesis
  proof (cases "findIndex (\<lambda>u. todo_id u = todo_id t) xs")
    case None
    then have "storedTodos (saveLocalTodo now t s) = xs @ [t\<lparr>savedAt := Some now\<rparr>]"
      using assms
      by (auto simp: saveLocalTodo_def saveLocalTodo_body_def storedTodos_def Let_def xs_def
            split: slot.splits)
    then show ?thesis by simp
  next
    case (Some i)
    from findIndex_Some [OF Some] have i: "i < length xs" by simp
    have "storedTodos (saveLocalTodo now t s)
            = xs[i := (spread (xs ! i) t)\<lparr>updatedAt := Some now\<rparr>]"
      using assms Some
      by (auto simp: saveLocalTodo_def saveLocalTodo_body_def storedTodos_def Let_def xs_def
            split: slot.splits)
    then have "(spread (xs ! i) t)\<lparr>updatedAt := Some now\<rparr> \<in> set (storedTodos (saveLocalTodo now t s))"
      using i by (simp add: set_update_memI)
    then show ?thesis
      by (rule rev_bexI) (auto simp: spread_def override_def)
  qed
qed

lemma saveLocalTodo_fails:
  assumes "todo_app_local_todos (localStorage s) = Corrupt \<or> \<not> writable (localStorage s)"
  shows "saveLocalTodo now t s = s"
  using assms
  by (auto simp: saveLocalTodo_def saveLocalTodo_body_def Let_def split: slot.splits)

lemma addTodo_rejected:
  assumes "apiPost (apiDataOf todoData) = Inl e"
  shows "addTodo dateNow now saveNow apiPost todoData s
           = (Inr (fallbackTodo dateNow now (apiDataOf todoData)),
              saveLocalTodo saveNow (fallbackTodo dateNow now (apiDataOf todoData)) s)"
  using assms by (simp add: addTodo_def Let_def)

text \<open>
  C10, as stated, fails: when the store cannot be written, \<^verbatim>\<open>addTodo\<close> with a rejected
  POST returns the fallback todo and nothing is saved.
\<close>

theorem addTodo_unsaved_counterexample:
  "fst (addTodo 1700000000000 1700000000000 1700000000001 rejecting milk
          (newTodoService (freshStorage\<lparr>writable := False\<rparr>)))
     = Inr \<lparr>todo_id = 1700000000000, title = Some ''Buy milk'', completed = False,
            userId = Some 1, createdAt = Some 1700000000000, fromApi = None,
            isLocal = Some True, savedAt = None, updatedAt = None\<rparr>
   \<and> storedTodos (snd (addTodo 1700000000000 1700000000000 1700000000001 rejecting milk
                          (newTodoService (freshStorage\<lparr>writable := False\<rparr>)))) = []"
  by (simp add: addTodo_def rejecting_def milk_def apiDataOf_def fallbackTodo_def or_text_def
        or_number_def config_defaultUserId_def saveLocalTodo_def saveLocalTodo_body_def
        newTodoService_def freshStorage_def storedTodos_def Let_def)

text \<open>
  C10, amended. When the POST fails, \<^verbatim>\<open>addTodo\<close> does not reject: it resolves to a todo
  whose id is the reading of \<^verbatim>\<open>Date.now()\<close>, whose title, completion and user id come
  from the input (the user id defaulting to the configured one), whose creation date is the
  clock reading, and which is marked local. When that id is not 0 and the store can be read
  and written, the store holds a todo with these values afterwards; when the store cannot
  be read or written, the failure is caught and the service is left as it was.
\<close>

theorem addTodo_fallback:
  assumes "apiPost (apiDataOf todoData) = Inl e"
  shows "fst (addTodo dateNow now saveNow apiPost todoData s)
           = Inr \<lparr>todo_id = dateNow,
                  title = or_text (data_title todoData) (data_todo todoData),
                  completed = (case data_completed todoData of Some c \<Rightarrow> c | None \<Rightarrow> False),
                  userId = Some (or_number (data_userId todoData) config_defaultUserId),
                  createdAt = Some now,
                  fromApi = None, isLocal = Some True, savedAt = None, updatedAt = None\<rparr>
         \<and> (dateNow \<noteq> 0 \<and> todo_app_local_todos (localStorage s) \<noteq> Corrupt
              \<and> writable (localStorage s) \<longrightarrow>
             (\<exists>u\<in>set (storedTodos (snd (addTodo dateNow now saveNow apiPost todoData s))).
                todo_id u = dateNow
                \<and> title u = or_text (data_title todoData) (data_todo todoData)
                \<and> completed u = (case data_completed todoData of Some c \<Rightarrow> c | None \<Rightarrow> False)
                \<and> userId u = Some (or_number (data_userId todoData) config_defaultUserId)
                \<and> createdAt u = Some now
                \<and> isLocal u = Some True))
         \<and> (todo_app_local_todos (localStorage s) = Corrupt \<or> \<not> writable (localStorage s) \<longrightarrow>
             snd (addTodo dateNow now saveNow apiPost todoData s) = s)"
proof -
  have rej: "addTodo dateNow now saveNow apiPost todoData s
               = (Inr (fallbackTodo dateNow now (apiDataOf todoData)),
                  saveLocalTodo saveNow (fallbackTodo dateNow now (apiDataOf todoData)) s)"
    using assms by (rule addTodo_rejected)
  have returned: "fst (addTodo dateNow now saveNow apiPost todoData s)
           = Inr \<lparr>todo_id = dateNow,
                  title = or_text (data_title todoData) (data_todo todoData),
                  completed = (case data_completed todoData of Some c \<Rightarrow> c | None \<Rightarrow> False),
                  userId = Some (or_number (data_userId todoData) config_defaultUserId),
                  createdAt = Some now,
                  fromApi = None, isLocal = Some True, savedAt = None, updatedAt = None\<rparr>"
    by (simp add: rej fallbackTodo_def apiDataOf_def)
  have saved: "\<exists>u\<in>set (storedTodos (snd (addTodo dateNow now saveNow apiPost todoData s))).
                todo_id u = dateNow
                \<and> title u = or_text (data_title todoData) (data_todo todoData)
                \<and> completed u = (case data_completed todoData of Some c \<Rightarrow> c | None \<Rightarrow> False)
                \<and> userId u = Some (or_number (data_userId todoData) config_defaultUserId)
                \<and> createdAt u = Some now
                \<and> isLocal u = Some True"
    if ok: "dateNow \<noteq> 0 \<and> todo_app_local_todos (localStorage s) \<noteq> Corrupt
              \<and> writable (localStorage s)"
  proof -
    have "todo_id (fallbackTodo dateNow now (apiDataOf todoData)) \<noteq> 0"
      using ok by (simp add: fallbackTodo_def)
    from saveLocalTodo_stores [OF this, of s saveNow] ok show ?thesis
      by (simp add: rej fallbackTodo_def apiDataOf_def)
  qed
  have unsaved: "snd (addTodo dateNow now saveNow apiPost todoData s) = s"
    if "todo_app_local_todos (localStorage s) = Corrupt \<or> \<not> writable (localStorage s)"
    using that by (simp add: rej saveLocalTodo_fails)
  from returned saved unsaved show ?thesis
    by blast
qed


theorem addTodo_fallback_witness:
  "rejecting (apiDataOf milk) = Inl ApiError
   \<and> (1700000000000::nat) \<noteq> 0
   \<and> todo_app_local_todos (localStorage (newTodoService freshStorage)) \<noteq> Corrupt
   \<and> writable (localStorage (newTodoService freshStorage))
   \<and> \<not> writable (localStorage (newTodoService (freshStorage\<lparr>writable := False\<rparr>)))
   \<and> fst (addTodo 1700000000000 1700000000000 1700000000001 rejecting milk
            (newTodoService freshStorage))
       = Inr \<lparr>todo_id = 1700000000000, title = Some ''Buy milk'', completed = False,
              userId = Some 1, createdAt = Some 1700000000000, fromApi = None,
              isLocal = Some True, savedAt = None, updatedAt = None\<rparr>
   \<and> (\<exists>u\<in>set (storedTodos (snd (addTodo 1700000000000 1700000000000 1700000000001
                                      rejecting milk (newTodoService freshStorage)))).
          todo_id u = 1700000000000 \<and> title u = Some ''Buy milk'' \<and> isLocal u = Some True)
   \<and> snd (addTodo 1700000000000 1700000000000 1700000000001 rejecting milk
            (newTodoService (freshStorage\<lparr>writable := False\<rparr>)))
       = newTodoService (freshStorage\<lparr>writable := False\<rparr>)"
proof -
  have h: "rejecting (apiDataOf milk) = Inl ApiError"
    by (simp add: rejecting_def)
  have ok: "(1700000000000::nat) \<noteq> 0
            \<and> todo_app_local_todos (localStorage (newTodoService freshStorage)) \<noteq> Corrupt
            \<and> writable (localStorage (newTodoService freshStorage))"
    by (simp add: newTodoService_def freshStorage_def)
  have full: "\<not> writable (localStorage (newTodoService (freshStorage\<lparr>writable := False\<rparr>)))"
    by (simp add: newTodoService_def)
  have vals: "or_text (data_title milk) (data_todo milk) = Some ''Buy milk''"
             "(case data_completed milk of Some c \<Rightarrow> c | None \<Rightarrow> False) = False"
             "or_number (data_userId milk) config_defaultUserId = 1"
    by (simp_all add: milk_def or_text_def or_number_def config_defaultUserId_def)
  from addTodo_fallback [where apiPost = rejecting and todoData = milk and e = ApiError
         and dateNow = 1700000000000 and now = 1700000000000 and saveNow = 1700000000001
         and s = "newTodoService freshStorage", OF h]
       addTodo_fallback [where apiPost = rejecting and todoData = milk and e = ApiError
         and dateNow = 1700000000000 and now = 1700000000000 and saveNow = 1700000000001
         and s = "newTodoService (freshStorage\<lparr>writable := False\<rparr>)", OF h]
  show ?thesis
    using h ok full by (auto simp: vals)
qed

end
